theory Spec2Isabelle
  imports Complex_Main
begin

section \<open>JavaScript primitives used by the star scenes\<close>

text \<open>
  A JavaScript \<open>number\<close> is a binary64 value; a finite one is modelled as the real
  number it denotes (the two zeros are the one number 0), and the catalog is JSON, which
  holds neither NaN nor an infinity. The catalog projector, the remapper and the name
  search round the result of every operation to binary64 (\<open>round64\<close> below), and the
  one place where an intermediate result can overflow to \<open>Infinity\<close>, the sum of squares
  of a position, is written out. The selection mix and the grid snapping are written with
  the exact operations. A string is a list of 8-bit characters (the Latin-1 range of the
  UTF-16 code units).
\<close>

type_synonym vec3 = "real \<times> real \<times> real"

subsection \<open>Binary64 arithmetic\<close>

text \<open>The power \<open>2 ^ e\<close> for an integer exponent.\<close>

definition pow2 :: "int \<Rightarrow> real" where
  "pow2 e = (if 0 \<le> e then 2 ^ nat e else 1 / 2 ^ nat (- e))"

text \<open>Rounding to the nearest integer, a tie going to the even one.\<close>

definition roundEven :: "real \<Rightarrow> int" where
  "roundEven v =
     (let f = \<lfloor>v\<rfloor>; d = v - of_int f
      in if d < 1 / 2 then f
         else if 1 / 2 < d then f + 1
         else if even f then f else f + 1)"

text \<open>
  The binary exponent of a value, not below the exponent \<open>-1022\<close> of the subnormal
  numbers; a number with this exponent is a multiple of \<open>2 ^ (e - 52)\<close>.
\<close>

definition exponent64 :: "real \<Rightarrow> int" where
  "exponent64 v = max \<lfloor>log 2 \<bar>v\<bar>\<rfloor> (- 1022)"

text \<open>
  The default rounding of IEEE 754 (to nearest, ties to even) of an exact result that
  does not overflow: 53 significant bits, gradual underflow.
\<close>

definition round64 :: "real \<Rightarrow> real" where
  "round64 v =
     (let ulp = pow2 (exponent64 v - 52)
      in of_int (roundEven (v / ulp)) * ulp)"

text \<open>
  An exact result rounds to an infinity when its magnitude reaches the midpoint between
  the largest finite number \<open>2 ^ 1024 - 2 ^ 971\<close> and \<open>2 ^ 1024\<close>.
\<close>

definition overflows64 :: "real \<Rightarrow> bool" where
  "overflows64 v = (2 ^ 1024 - 2 ^ 970 \<le> \<bar>v\<bar>)"

text \<open>
  The expression \<open>x * x + y * y + z * z\<close>, evaluated from the left; \<open>None\<close> is
  \<open>Infinity\<close>, the value as soon as one product or sum overflows (all terms are
  non-negative, so no NaN arises).
\<close>

definition sumOfSquares64 :: "vec3 \<Rightarrow> real option" where
  "sumOfSquares64 p =
     (case p of (x, y, z) \<Rightarrow>
        if overflows64 (x * x) \<or> overflows64 (y * y) \<or> overflows64 (z * z) then None
        else
          (let xy = round64 (x * x) + round64 (y * y)
           in if overflows64 xy then None
              else
                (let xyz = round64 xy + round64 (z * z)
                 in if overflows64 xyz then None else Some (round64 xyz))))"

subsection \<open>Numbers and strings\<close>

text \<open>
  \<open>Math.round\<close>: the nearest integer, a tie going to the larger one. For an argument in
  \<open>[-0.5, 0)\<close> JavaScript returns the negative zero, which is the number 0 here.
\<close>

definition Math_round :: "real \<Rightarrow> int" where
  "Math_round v = \<lfloor>v + 1 / 2\<rfloor>"

text \<open>
  \<open>randInRange(min, max) = min + Math.random() * (max - min)\<close>, each of the three
  operations rounded. The value that this call of \<open>Math.random()\<close> returns is the first
  argument; callers take it from the sequence of all values the ambient generator will
  return, each of them in \<open>[0, 1)\<close>. The bounds are the configured constants, so no
  operation overflows.
\<close>

definition randInRange :: "real \<Rightarrow> real \<Rightarrow> real \<Rightarrow> real" where
  "randInRange u lo hi = round64 (lo + round64 (u * round64 (hi - lo)))"

text \<open>
  \<open>String.prototype.trim\<close> strips white space and line terminators at both ends; in the
  8-bit range these are the code units 9 to 13, 32 and 160.
\<close>

definition isWhiteSpace :: "char \<Rightarrow> bool" where
  "isWhiteSpace c = (let n = (of_char c :: nat) in (9 \<le> n \<and> n \<le> 13) \<or> n = 32 \<or> n = 160)"

definition trim :: "string \<Rightarrow> string" where
  "trim s = rev (dropWhile isWhiteSpace (rev (dropWhile isWhiteSpace s)))"

text \<open>
  \<open>toUpperCase\<close> and \<open>toLowerCase\<close>, one code unit at a time: the ASCII letters and
  the Latin-1 letters 192 to 222 / 224 to 254 (without the signs 215 and 247) differ by 32.
  The three Latin-1 characters whose upper case lies outside the 8-bit range (181, 223 and
  255) are left as they are; in JavaScript too their upper case is no ASCII letter.
\<close>

definition upperChar :: "char \<Rightarrow> char" where
  "upperChar c =
     (let n = (of_char c :: nat)
      in if (97 \<le> n \<and> n \<le> 122) \<or> (224 \<le> n \<and> n \<le> 254 \<and> n \<noteq> 247)
         then char_of (n - 32) else c)"

definition lowerChar :: "char \<Rightarrow> char" where
  "lowerChar c =
     (let n = (of_char c :: nat)
      in if (65 \<le> n \<and> n \<le> 90) \<or> (192 \<le> n \<and> n \<le> 222 \<and> n \<noteq> 215)
         then char_of (n + 32) else c)"

definition toUpperCase :: "string \<Rightarrow> string" where
  "toUpperCase s = map upperChar s"

definition toLowerCase :: "string \<Rightarrow> string" where
  "toLowerCase s = map lowerChar s"

text \<open>The decimal digits of a natural number, as template literals print an index.\<close>

fun showNat :: "nat \<Rightarrow> string" where
  "showNat n =
     (if n < 10 then [char_of (48 + n)]
      else showNat (n div 10) @ [char_of (48 + n mod 10)])"

declare showNat.simps [simp del]

text \<open>
  \<open>Number.prototype.toFixed(2)\<close>: the integer \<open>n\<close> nearest to \<open>100 * v\<close> (the larger one
  at a tie), printed with two digits after the point; a negative \<open>v\<close> is printed as
  \<open>-\<close> followed by the digits of \<open>-v\<close>.
\<close>

definition fixedDigits2 :: "real \<Rightarrow> string" where
  "fixedDigits2 v =
     (let n = nat \<lfloor>v * 100 + 1 / 2\<rfloor>
      in showNat (n div 100) @ ''.'' @
         [char_of (48 + n mod 100 div 10), char_of (48 + n mod 10)])"

definition toFixed2 :: "real \<Rightarrow> string" where
  "toFixed2 v = (if v < 0 then ''-'' @ fixedDigits2 (- v) else fixedDigits2 v)"


section \<open>Catalog projector (StarField)\<close>

datatype SpectralClass = ClsO | ClsB | ClsA | ClsF | ClsG | ClsK | ClsM

record CatalogStar =
  cat_name :: "string option"
  cat_raHours :: real
  cat_decDeg :: real
  cat_distParsec :: real
  cat_mag :: real
  cat_spect :: "string option"
  cat_x :: real
  cat_y :: real
  cat_z :: real

text \<open>
  The comparison chain \<open>c === "O" || c === "B" || ...\<close> of \<open>inferSpectralClass\<close>, on the
  upper-cased first character (a string of length one).
\<close>

definition classOfLetter :: "string \<Rightarrow> SpectralClass option" where
  "classOfLetter c =
     (if c = ''O'' then Some ClsO
      else if c = ''B'' then Some ClsB
      else if c = ''A'' then Some ClsA
      else if c = ''F'' then Some ClsF
      else if c = ''G'' then Some ClsG
      else if c = ''K'' then Some ClsK
      else if c = ''M'' then Some ClsM
      else None)"

text \<open>
  \<open>inferSpectralClass\<close> (the same body as \<open>inferSpectralClassFromCatalog\<close> of the galaxy
  canvas): \<open>(star.spect || "").trim()\<close>, then the letter test, then the magnitude ladder.
\<close>

definition inferSpectralClass :: "CatalogStar \<Rightarrow> SpectralClass" where
  "inferSpectralClass star =
     (let raw = trim (case cat_spect star of None \<Rightarrow> [] | Some s \<Rightarrow> s);
          byLetter = (case raw of [] \<Rightarrow> None | c0 # _ \<Rightarrow> classOfLetter (toUpperCase [c0]))
      in case byLetter of
           Some cls \<Rightarrow> cls
         | None \<Rightarrow>
             (let m = cat_mag star
              in if m \<le> 0.0 then ClsB
                 else if m \<le> 1.5 then ClsA
                 else if m \<le> 3.0 then ClsF
                 else if m \<le> 4.5 then ClsG
                 else if m \<le> 6.0 then ClsK
                 else ClsM))"

subsection \<open>The reference definition of the specification\<close>

text \<open>
  The specification's wording: the class is the upper-cased first character of the
  trimmed spectral string when that is one of O, B, A, F, G, K, M; otherwise the first
  threshold of the ordered ladder of inclusive upper bounds that the magnitude does not
  exceed, and M when it exceeds them all.
\<close>

definition spec_letters :: "(char \<times> SpectralClass) list" where
  "spec_letters =
     [(CHR ''O'', ClsO), (CHR ''B'', ClsB), (CHR ''A'', ClsA), (CHR ''F'', ClsF),
      (CHR ''G'', ClsG), (CHR ''K'', ClsK), (CHR ''M'', ClsM)]"

definition spec_ladder :: "(real \<times> SpectralClass) list" where
  "spec_ladder = [(0.0, ClsB), (1.5, ClsA), (3.0, ClsF), (4.5, ClsG), (6.0, ClsK)]"

definition spec_ladderClass :: "real \<Rightarrow> SpectralClass" where
  "spec_ladderClass m =
     (case find (\<lambda>(bound, cls). m \<le> bound) spec_ladder of
        Some (bound, cls) \<Rightarrow> cls
      | None \<Rightarrow> ClsM)"

definition spec_spectralClass :: "string option \<Rightarrow> real \<Rightarrow> SpectralClass" where
  "spec_spectralClass sp m =
     (case trim (case sp of None \<Rightarrow> [] | Some s \<Rightarrow> s) of
        [] \<Rightarrow> spec_ladderClass m
      | c0 # _ \<Rightarrow>
          (case map_of spec_letters (upperChar c0) of
             Some cls \<Rightarrow> cls
           | None \<Rightarrow> spec_ladderClass m))"

subsection \<open>Class configuration and the projected star\<close>

record SpectralConfig =
  tempRange :: "real \<times> real"
  radiusRangeSun :: "real \<times> real"
  color :: string
  label :: string

text \<open>
  The configuration table. A decimal literal that is no binary64 number denotes the
  nearest one.
\<close>

fun SPECTRAL_CONFIG :: "SpectralClass \<Rightarrow> SpectralConfig" where
  "SPECTRAL_CONFIG ClsO =
     \<lparr>tempRange = (30000, 50000), radiusRangeSun = (6, 10),
      color = ''#7dd7ff'', label = ''O-type blue star''\<rparr>"
| "SPECTRAL_CONFIG ClsB =
     \<lparr>tempRange = (10000, 30000), radiusRangeSun = (2, 6),
      color = ''#8fb9ff'', label = ''B-type blue white star''\<rparr>"
| "SPECTRAL_CONFIG ClsA =
     \<lparr>tempRange = (7500, 10000), radiusRangeSun = (round64 1.4, 2.0),
      color = ''#e0e6ff'', label = ''A-type white star''\<rparr>"
| "SPECTRAL_CONFIG ClsF =
     \<lparr>tempRange = (6000, 7500), radiusRangeSun = (round64 1.15, round64 1.4),
      color = ''#ffe9c2'', label = ''F-type yellow white star''\<rparr>"
| "SPECTRAL_CONFIG ClsG =
     \<lparr>tempRange = (5200, 6000), radiusRangeSun = (round64 0.9, round64 1.15),
      color = ''#ffd27a'', label = ''G-type yellow star''\<rparr>"
| "SPECTRAL_CONFIG ClsK =
     \<lparr>tempRange = (3700, 5200), radiusRangeSun = (round64 0.7, round64 0.9),
      color = ''#ff9c4a'', label = ''K-type orange star''\<rparr>"
| "SPECTRAL_CONFIG ClsM =
     \<lparr>tempRange = (2400, 3700), radiusRangeSun = (round64 0.1, round64 0.7),
      color = ''#ff6b3b'', label = ''M-type red dwarf''\<rparr>"

text \<open>The class as the one-letter string it is in the source.\<close>

fun classLetter :: "SpectralClass \<Rightarrow> string" where
  "classLetter ClsO = ''O''"
| "classLetter ClsB = ''B''"
| "classLetter ClsA = ''A''"
| "classLetter ClsF = ''F''"
| "classLetter ClsG = ''G''"
| "classLetter ClsK = ''K''"
| "classLetter ClsM = ''M''"

record StarAttributes =
  attr_name :: string
  attr_status :: string
  attr_spectralClass :: SpectralClass
  attr_temperature :: int
  attr_radiusSun :: real

record StarData =
  sd_position :: vec3
  sd_meshScale :: real
  sd_color :: string
  sd_attributes :: StarAttributes

record StarSelectionInfo =
  si_position :: vec3
  si_name :: string
  si_status :: string
  si_type :: string
  si_temperature :: int
  si_size :: string

subsection \<open>Spatial remapper\<close>

text \<open>
  The local \<open>k\<close> of \<open>remapPosition\<close>. \<open>Math.sqrt\<close> rounds the exact square root;
  \<open>|| 1e-6\<close> replaces a zero norm by the epsilon. When the sum of squares is
  \<open>Infinity\<close>, so is its square root, and \<open>targetR / Infinity\<close> is 0. The first
  argument is the value \<open>Math.random()\<close> returns inside \<open>randInRange(VIS_MIN, VIS_MAX)\<close>.
\<close>

definition remapScale :: "real \<Rightarrow> vec3 \<Rightarrow> real" where
  "remapScale u p =
     (case sumOfSquares64 p of
        None \<Rightarrow> 0
      | Some s \<Rightarrow>
          (let r0 = round64 (sqrt s);
               rOrig = (if r0 = 0 then round64 (1 / 10 ^ 6) else r0);
               VIS_MIN = 20;
               VIS_MAX = 85;
               targetR = randInRange u VIS_MIN VIS_MAX
           in round64 (targetR / rOrig)))"

text \<open>
  \<open>remapPosition\<close> returns \<open>[x * k, y * k, z * k]\<close>. For binary64 coordinates these
  products stay below 128 in magnitude, so none of them overflows.
\<close>

definition remapPosition :: "real \<Rightarrow> vec3 \<Rightarrow> vec3" where
  "remapPosition u p =
     (case p of (x, y, z) \<Rightarrow>
        (let k = remapScale u p
         in (round64 (x * k), round64 (y * k), round64 (z * k))))"

text \<open>The Euclidean norm of a position, as a real number.\<close>

definition vlength :: "vec3 \<Rightarrow> real" where
  "vlength v = (case v of (x, y, z) \<Rightarrow> sqrt (x * x + y * y + z * z))"

text \<open>
  The raw coordinates for which no operation of \<open>remapPosition\<close> overflows or
  underflows: zero, or of magnitude between \<open>2 ^ -500\<close> and \<open>2 ^ 500\<close>.
\<close>

definition safeCoordinate :: "real \<Rightarrow> bool" where
  "safeCoordinate c = (c = 0 \<or> (1 / 2 ^ 500 \<le> \<bar>c\<bar> \<and> \<bar>c\<bar> \<le> 2 ^ 500))"

text \<open>The two factors that bound a rounded positive result about the exact one.\<close>

definition lo64 :: real where
  "lo64 = 1 - 1 / 2 ^ 53"

definition hi64 :: real where
  "hi64 = 1 + 1 / 2 ^ 53"

subsection \<open>Loading the star field\<close>

text \<open>
  The callback of \<open>subset.map\<close> in \<open>StarField\<close>. It calls \<open>Math.random()\<close> three times,
  for the temperature, the radius and the target radius, in this order: the values
  \<open>rnd n\<close>, \<open>rnd (n + 1)\<close> and \<open>rnd (n + 2)\<close> of the generator's sequence.
\<close>

definition projectStar :: "(nat \<Rightarrow> real) \<Rightarrow> nat \<Rightarrow> nat \<Rightarrow> CatalogStar \<Rightarrow> StarData" where
  "projectStar rnd n index s =
     (let cls = inferSpectralClass s;
          cfg = SPECTRAL_CONFIG cls;
          temperature = Math_round (randInRange (rnd n) (fst (tempRange cfg)) (snd (tempRange cfg)));
          radiusSun = randInRange (rnd (n + 1)) (fst (radiusRangeSun cfg)) (snd (radiusRangeSun cfg));
          SCALE = round64 0.09;
          meshScale = round64 (radiusSun * SCALE);
          pos = remapPosition (rnd (n + 2)) (cat_x s, cat_y s, cat_z s);
          displayName =
            (case cat_name s of
               None \<Rightarrow> ''Unnamed #'' @ showNat index
             | Some nm \<Rightarrow> if nm \<noteq> [] \<and> length (trim nm) > 0 then nm
                          else ''Unnamed #'' @ showNat index)
      in \<lparr>sd_position = pos, sd_meshScale = meshScale, sd_color = color cfg,
          sd_attributes =
            \<lparr>attr_name = displayName, attr_status = ''unclaimed'', attr_spectralClass = cls,
             attr_temperature = temperature, attr_radiusSun = radiusSun\<rparr>\<rparr>)"

fun projectStars :: "(nat \<Rightarrow> real) \<Rightarrow> nat \<Rightarrow> nat \<Rightarrow> CatalogStar list \<Rightarrow> StarData list" where
  "projectStars rnd n index [] = []"
| "projectStars rnd n index (s # ss) =
     projectStar rnd n index s # projectStars rnd (n + 3) (Suc index) ss"

text \<open>
  The memoised list of \<open>StarField\<close> (\<open>useMemo\<close> with no dependencies, so computed once per
  mount): the 2500 nearest records by a stable ascending sort on the distance.
\<close>

definition starFieldStars :: "(nat \<Rightarrow> real) \<Rightarrow> CatalogStar list \<Rightarrow> StarData list" where
  "starFieldStars rnd raw = projectStars rnd 0 0 (take 2500 (sort_key cat_distParsec raw))"

text \<open>The selection record that \<open>handleClick\<close> of a \<open>Star\<close> passes to \<open>onSelect\<close>.\<close>

definition starClickInfo :: "StarData \<Rightarrow> StarSelectionInfo" where
  "starClickInfo d =
     (let attr = sd_attributes d
      in \<lparr>si_position = sd_position d,
          si_name = attr_name attr,
          si_status = attr_status attr,
          si_type = classLetter (attr_spectralClass attr) @ ''-type star'',
          si_temperature = attr_temperature attr,
          si_size = toFixed2 (attr_radiusSun attr) @ '' x Sun radius''\<rparr>)"

subsection \<open>Flicker and tint: the selection mix of one star\<close>








section \<open>Selection and focus controller (GalaxyCanvas)\<close>

subsection \<open>The vector operations of the scene library that the canvas calls\<close>

text \<open>\<open>length()\<close> is the rounded square root of the sum of squares; \<open>None\<close> is \<open>Infinity\<close>.\<close>

definition length64 :: "vec3 \<Rightarrow> real option" where
  "length64 v = map_option (\<lambda>s. round64 (sqrt s)) (sumOfSquares64 v)"

definition multiplyScalar64 :: "vec3 \<Rightarrow> real \<Rightarrow> vec3" where
  "multiplyScalar64 v k =
     (case v of (x, y, z) \<Rightarrow> (round64 (x * k), round64 (y * k), round64 (z * k)))"

definition add64 :: "vec3 \<Rightarrow> vec3 \<Rightarrow> vec3" where
  "add64 v w =
     (case v of (x, y, z) \<Rightarrow> case w of (a, b, c) \<Rightarrow>
        (round64 (x + a), round64 (y + b), round64 (z + c)))"

subsection \<open>State of the canvas\<close>

text \<open>The orbit controls: the orbit target and the position of the camera they own.\<close>

record Controls =
  ctl_target :: vec3
  ctl_cameraPosition :: vec3

text \<open>
  \<open>selectedStar\<close> is the SelectionState; \<open>controls\<close> is \<open>controlsRef.current\<close> (none
  before the controls are mounted) and carries the camera focus; \<open>warnings\<close> lists the
  argument lists of the calls of \<open>console.warn\<close>; \<open>randomCalls\<close> counts the values of
  \<open>Math.random()\<close> used so far.
\<close>

record GalaxyState =
  selectedStar :: "StarSelectionInfo option"
  searchValue :: string
  controls :: "Controls option"
  warnings :: "string list list"
  randomCalls :: nat

definition focusCameraOn :: "Controls \<Rightarrow> vec3 \<Rightarrow> real \<Rightarrow> Controls" where
  "focusCameraOn c position distance =
     c\<lparr>ctl_target := position, ctl_cameraPosition := add64 position (0, 0, distance)\<rparr>"

definition handleStarSelect :: "GalaxyState \<Rightarrow> StarSelectionInfo \<Rightarrow> GalaxyState" where
  "handleStarSelect st info =
     st\<lparr>selectedStar := Some info,
        controls := map_option (\<lambda>c. focusCameraOn c (si_position info) 30) (controls st)\<rparr>"

definition handleVoidClick :: "GalaxyState \<Rightarrow> GalaxyState" where
  "handleVoidClick st =
     st\<lparr>selectedStar := None,
        controls := map_option (\<lambda>c. c\<lparr>ctl_target := (0, 0, 0), ctl_cameraPosition := (0, 0, 120)\<rparr>)
                      (controls st)\<rparr>"

text \<open>
  A click on the star with index \<open>i\<close> of the field: its \<open>handleClick\<close> passes the
  selection record to \<open>onSelect\<close>, which the canvas binds to \<open>handleStarSelect\<close>.
\<close>

definition clickStar :: "StarData list \<Rightarrow> GalaxyState \<Rightarrow> nat \<Rightarrow> GalaxyState" where
  "clickStar field st i =
     (if i < length field then handleStarSelect st (starClickInfo (field ! i)) else st)"

text \<open>The five attributes the info box prints for the selected star.\<close>

definition displayedAttributes ::
  "StarSelectionInfo \<Rightarrow> string \<times> string \<times> string \<times> int \<times> string" where
  "displayedAttributes info =
     (si_name info, si_status info, si_type info, si_temperature info, si_size info)"

text \<open>The predicate of \<open>stars.find\<close> in \<open>performSearch\<close>: a truthy name equal to the query up to case.\<close>

definition nameMatches :: "string \<Rightarrow> CatalogStar \<Rightarrow> bool" where
  "nameMatches query s =
     (case cat_name s of
        None \<Rightarrow> False
      | Some nm \<Rightarrow> nm \<noteq> [] \<and> toLowerCase nm = toLowerCase query)"

text \<open>
  The synthetic focus position of a found star: \<open>dir.set(0, 0, 1)\<close> when \<open>dir.length()\<close>
  is 0, then \<open>normalize()\<close>, that is \<open>divideScalar(length() || 1)\<close> where
  \<open>divideScalar(s)\<close> multiplies by \<open>1 / s\<close>, then the scaling to the distance 50. For an
  infinite length the reciprocal is 0 and the position is the origin.
\<close>

definition searchFocusPosition :: "CatalogStar \<Rightarrow> vec3" where
  "searchFocusPosition targetStar =
     (let dir = (cat_x targetStar, cat_y targetStar, cat_z targetStar)
      in case length64 dir of
           None \<Rightarrow> (0, 0, 0)
         | Some l \<Rightarrow>
             (let dir1 = (if l = 0 then (0, 0, 1) else dir);
                  l1 = (if l = 0 then 1 else l);
                  dir2 = multiplyScalar64 dir1 (round64 (1 / l1));
                  focusDistance = 50
              in multiplyScalar64 dir2 focusDistance))"

text \<open>
  The selection record \<open>performSearch\<close> builds for a found star; \<open>uT\<close> and \<open>uR\<close> are the
  two values \<open>Math.random()\<close> returns in its calls of \<open>randInRange\<close>.
\<close>

definition searchInfo :: "real \<Rightarrow> real \<Rightarrow> CatalogStar \<Rightarrow> StarSelectionInfo" where
  "searchInfo uT uR targetStar =
     (let spectralClass = inferSpectralClass targetStar;
          cfg = SPECTRAL_CONFIG spectralClass;
          temperature = Math_round (randInRange uT (fst (tempRange cfg)) (snd (tempRange cfg)));
          radiusSun = randInRange uR (fst (radiusRangeSun cfg)) (snd (radiusRangeSun cfg));
          pos = searchFocusPosition targetStar
      in \<lparr>si_position = pos,
          si_name = (case cat_name targetStar of None \<Rightarrow> ''Unnamed star''
                     | Some nm \<Rightarrow> if nm = [] then ''Unnamed star'' else nm),
          si_status = ''unclaimed'',
          si_type = label cfg,
          si_temperature = temperature,
          si_size = toFixed2 radiusSun @ '' x Sun radius''\<rparr>)"

text \<open>
  \<open>performSearch\<close>, with the catalog the dynamic import resolves to and the sequence
  \<open>rnd\<close> of the generator's values.
\<close>

definition performSearch :: "(nat \<Rightarrow> real) \<Rightarrow> CatalogStar list \<Rightarrow> GalaxyState \<Rightarrow> GalaxyState" where
  "performSearch rnd stars st =
     (if trim (searchValue st) = [] then st
      else
        (case find (nameMatches (searchValue st)) stars of
           None \<Rightarrow> st\<lparr>warnings := warnings st @ [[''Star not found:'', searchValue st]]\<rparr>
         | Some targetStar \<Rightarrow>
             (let n = randomCalls st;
                  info = searchInfo (rnd n) (rnd (n + 1)) targetStar
              in st\<lparr>selectedStar := Some info,
                    controls := map_option (\<lambda>c. focusCameraOn c (si_position info) 30) (controls st),
                    randomCalls := n + 2\<rparr>)))"

text \<open>
  The session after the scene is mounted: nothing selected, an empty search box, and
  three values of the generator used for each projected star.
\<close>

definition galaxyMounted :: "StarData list \<Rightarrow> GalaxyState" where
  "galaxyMounted field =
     \<lparr>selectedStar = None, searchValue = [],
      controls = Some \<lparr>ctl_target = (0, 0, 0), ctl_cameraPosition = (0, 0, 120)\<rparr>,
      warnings = [], randomCalls = 3 * length field\<rparr>"


section \<open>Constellation placement system (ConstellationCanvas)\<close>

datatype StarRarity = common | uncommon

record InventoryStar =
  inv_id :: string
  inv_rarity :: StarRarity
  inv_placed :: bool
  inv_position :: "vec3 option"
  inv_name :: string
  inv_status :: string
  inv_type :: string
  inv_temperature :: int
  inv_sizeLabel :: string

record RarityVisualConfig =
  sizeRange :: "real \<times> real"
  rv_color :: string
  flickerStrength :: real
  typeName :: string
  sizeLabel :: string
  temperatureRange :: "real \<times> real"

fun RARITY_VISUAL_CONFIG :: "StarRarity \<Rightarrow> RarityVisualConfig" where
  "RARITY_VISUAL_CONFIG common =
     \<lparr>sizeRange = (round64 0.05, round64 0.08), rv_color = ''#ffb26b'',
      flickerStrength = round64 0.07,
      typeName = ''K/M-type dwarf'', sizeLabel = ''Small'', temperatureRange = (3000, 5000)\<rparr>"
| "RARITY_VISUAL_CONFIG uncommon =
     \<lparr>sizeRange = (round64 0.06, round64 0.095), rv_color = ''#ffd86b'',
      flickerStrength = round64 0.1,
      typeName = ''G-type star'', sizeLabel = ''Medium'', temperatureRange = (5000, 6000)\<rparr>"

fun rarityName :: "StarRarity \<Rightarrow> string" where
  "rarityName common = ''common''"
| "rarityName uncommon = ''uncommon''"

text \<open>
  \<open>snapToGrid(pos, step)\<close>; the one call site passes the step 1. A zero step, where
  JavaScript divides to an infinity, is outside the model.
\<close>

definition snapToGrid :: "vec3 \<Rightarrow> real \<Rightarrow> vec3" where
  "snapToGrid pos step =
     (case pos of (px, py, pz) \<Rightarrow>
        (let x = of_int (Math_round (px / step)) * step;
             y = of_int (Math_round (py / step)) * step;
             z = of_int (Math_round (pz / step)) * step
         in (x, y, z)))"

text \<open>\<open>makeStar\<close>, with the value \<open>u\<close> of its one call of \<open>Math.random()\<close>.\<close>

definition makeStar :: "real \<Rightarrow> StarRarity \<Rightarrow> nat \<Rightarrow> InventoryStar" where
  "makeStar u rarity index =
     (let cfg = RARITY_VISUAL_CONFIG rarity;
          temp = Math_round (randInRange u (fst (temperatureRange cfg)) (snd (temperatureRange cfg)))
      in \<lparr>inv_id = rarityName rarity @ ''-'' @ showNat index,
          inv_rarity = rarity,
          inv_placed = False,
          inv_position = None,
          inv_name = ''???'',
          inv_status = ''unclaimed'',
          inv_type = typeName cfg,
          inv_temperature = temp,
          inv_sizeLabel = sizeLabel cfg\<rparr>)"

text \<open>The two loops of the state initialiser: five common stars, then two uncommon ones.\<close>

definition initialInventory :: "(nat \<Rightarrow> real) \<Rightarrow> InventoryStar list" where
  "initialInventory rnd =
     map (\<lambda>i. makeStar (rnd i) common i) [0..<5] @
     map (\<lambda>i. makeStar (rnd (5 + i)) uncommon i) [0..<2]"

record ConstellationState =
  inventory :: "InventoryStar list"
  editMode :: bool
  selectedInventoryId :: "string option"
  placedSelection :: "InventoryStar option"

text \<open>
  \<open>placedSelection\<close> is the state variable \<open>selectedStar\<close> of the constellation canvas
  (the star shown in the info panel); \<open>selectedInventoryId\<close> is the armed id.
\<close>

definition initialConstellation :: "(nat \<Rightarrow> real) \<Rightarrow> ConstellationState" where
  "initialConstellation rnd =
     \<lparr>inventory = initialInventory rnd, editMode = False,
      selectedInventoryId = None, placedSelection = None\<rparr>"

definition placedStars :: "ConstellationState \<Rightarrow> InventoryStar list" where
  "placedStars st = filter (\<lambda>s. inv_placed s \<and> inv_position s \<noteq> None) (inventory st)"

definition handleToggleEdit :: "ConstellationState \<Rightarrow> ConstellationState" where
  "handleToggleEdit st =
     st\<lparr>editMode := \<not> editMode st,
        selectedInventoryId := (if editMode st then None else selectedInventoryId st)\<rparr>"

definition handleSelectInventoryStar :: "ConstellationState \<Rightarrow> string \<Rightarrow> ConstellationState" where
  "handleSelectInventoryStar st i =
     (if \<not> editMode st then st
      else st\<lparr>selectedInventoryId :=
                (if selectedInventoryId st = Some i then None else Some i)\<rparr>)"

definition handleReturnToInventory :: "ConstellationState \<Rightarrow> string \<Rightarrow> ConstellationState" where
  "handleReturnToInventory st i =
     st\<lparr>inventory :=
          map (\<lambda>s. if inv_id s = i then s\<lparr>inv_placed := False, inv_position := None\<rparr> else s)
            (inventory st),
        selectedInventoryId :=
          (if selectedInventoryId st = Some i then None else selectedInventoryId st),
        placedSelection :=
          (case placedSelection st of
             None \<Rightarrow> None
           | Some sel \<Rightarrow> if inv_id sel = i then None else Some sel)\<rparr>"

text \<open>\<open>!selectedInventoryId\<close> holds for \<open>null\<close> and for the empty string.\<close>

definition handlePlaneClick :: "ConstellationState \<Rightarrow> vec3 \<Rightarrow> ConstellationState" where
  "handlePlaneClick st pos =
     (case selectedInventoryId st of
        None \<Rightarrow> st
      | Some armed \<Rightarrow>
          if \<not> editMode st \<or> armed = [] then st
          else
            (let snapped = snapToGrid pos 1
             in case find (\<lambda>s. inv_id s = armed) (inventory st) of
                  None \<Rightarrow> st
                | Some baseStar \<Rightarrow>
                    (let updatedStar = baseStar\<lparr>inv_placed := True, inv_position := Some snapped\<rparr>
                     in st\<lparr>inventory :=
                             map (\<lambda>s. if inv_id s = armed then updatedStar else s) (inventory st),
                           placedSelection := Some updatedStar\<rparr>)))"

definition handlePlacedStarClick :: "ConstellationState \<Rightarrow> string \<Rightarrow> ConstellationState" where
  "handlePlacedStarClick st i =
     (case find (\<lambda>s. inv_id s = i) (inventory st) of
        None \<Rightarrow> st
      | Some star \<Rightarrow>
          if inv_position star = None then st
          else st\<lparr>placedSelection := Some star,
                  selectedInventoryId := (if editMode st then Some i else selectedInventoryId st)\<rparr>)"

definition clearSelection :: "ConstellationState \<Rightarrow> ConstellationState" where
  "clearSelection st = st\<lparr>placedSelection := None, selectedInventoryId := None\<rparr>"

subsection \<open>What the rendered scene offers\<close>

text \<open>
  The canvas calls \<open>clearSelection\<close> from \<open>onPointerMissed\<close> for an event of type
  \<open>click\<close>; the placement plane calls \<open>handlePlaneClick\<close> only in edit mode.
\<close>

definition onPointerMissed :: "ConstellationState \<Rightarrow> string \<Rightarrow> ConstellationState" where
  "onPointerMissed st eventType = (if eventType = ''click'' then clearSelection st else st)"

definition placementPlaneClick :: "ConstellationState \<Rightarrow> vec3 \<Rightarrow> ConstellationState" where
  "placementPlaneClick st point = (if \<not> editMode st then st else handlePlaneClick st point)"

subsection \<open>Runs of the constellation canvas\<close>

datatype ConstellationEvent =
    ToggleEdit
  | ArmForPlacement string
  | PlaceAt vec3
  | ReturnToInventory string
  | PlacedStarClick string
  | BackgroundClick

fun constellationStep :: "ConstellationState \<Rightarrow> ConstellationEvent \<Rightarrow> ConstellationState" where
  "constellationStep st ToggleEdit = handleToggleEdit st"
| "constellationStep st (ArmForPlacement i) = handleSelectInventoryStar st i"
| "constellationStep st (PlaceAt pos) = handlePlaneClick st pos"
| "constellationStep st (ReturnToInventory i) = handleReturnToInventory st i"
| "constellationStep st (PlacedStarClick i) = handlePlacedStarClick st i"
| "constellationStep st BackgroundClick = clearSelection st"

definition constellationRun :: "ConstellationState \<Rightarrow> ConstellationEvent list \<Rightarrow> ConstellationState" where
  "constellationRun st events = foldl constellationStep st events"

text \<open>A number is on the grid of step 1 when it is an integer.\<close>

definition isInteger :: "real \<Rightarrow> bool" where
  "isInteger v = (of_int \<lfloor>v\<rfloor> = v)"

definition onGrid :: "vec3 \<Rightarrow> bool" where
  "onGrid p = (case p of (x, y, z) \<Rightarrow> isInteger x \<and> isInteger y \<and> isInteger z)"

definition entryConsistent :: "InventoryStar \<Rightarrow> bool" where
  "entryConsistent s =
     ((inv_placed s = (inv_position s \<noteq> None)) \<and>
      (case inv_position s of None \<Rightarrow> True | Some p \<Rightarrow> onGrid p))"


section \<open>Concrete inputs for the worked examples\<close>

text \<open>A generator sequence: \<open>1/4\<close> first, \<open>3/4\<close> as the fourth value, \<open>1/2\<close> elsewhere.\<close>

definition demoRandom :: "nat \<Rightarrow> real" where
  "demoRandom n = (if n = 0 then 1 / 4 else if n = 3 then 3 / 4 else 1 / 2)"

definition sirius :: CatalogStar where
  "sirius =
     \<lparr>cat_name = Some ''Sirius'', cat_raHours = 6.75, cat_decDeg = -16.7,
      cat_distParsec = 2.64, cat_mag = -1.46, cat_spect = Some ''A1V'',
      cat_x = 0, cat_y = 0, cat_z = 1\<rparr>"

text \<open>A constellation in edit mode with two unplaced entries, the first one armed.\<close>

definition demoConstellation :: ConstellationState where
  "demoConstellation =
     \<lparr>inventory = [makeStar (1 / 2) common 0, makeStar (1 / 4) uncommon 0], editMode = True,
      selectedInventoryId = Some ''common-0'', placedSelection = None\<rparr>"


text \<open>
  A constellation reached from the initial one: edit mode entered, the first common star
  armed and placed at \<open>(2, 2, 2)\<close>, then a click on the background.
\<close>

definition placedAndCleared :: ConstellationState where
  "placedAndCleared =
     constellationRun (initialConstellation demoRandom)
       [ToggleEdit, ArmForPlacement ''common-0'', PlaceAt (2, 2, 2), BackgroundClick]"


section \<open>Properties of binary64 rounding\<close>

lemmas char_eval = char_of_def bit_Suc_0_iff showNat.simps

lemma pow2_powr: "pow2 e = 2 powr (real_of_int e)"
  by (simp add: pow2_def powr_int)

lemma pow2_pos: "0 < pow2 e"
  by (simp add: pow2_powr)

lemma pow2_add: "pow2 (a + b) = pow2 a * pow2 b"
  by (simp add: pow2_powr powr_add)

lemma pow2_mono: "a \<le> b \<Longrightarrow> pow2 a \<le> pow2 b"
  by (simp add: pow2_powr)

lemma roundEven_near: "\<bar>of_int (roundEven v) - v\<bar> \<le> 1 / 2"
  unfolding roundEven_def Let_def by (auto; linarith)

lemma roundEven_nonneg: "0 \<le> v \<Longrightarrow> 0 \<le> roundEven v"
  unfolding roundEven_def Let_def by (auto; linarith)

lemma roundEven_of_int: "roundEven (of_int n) = n"
  by (simp add: roundEven_def)

lemma round64_zero: "round64 0 = 0"
  by (simp add: round64_def roundEven_def)

lemma round64_nonneg: "0 \<le> v \<Longrightarrow> 0 \<le> round64 v"
  unfolding round64_def Let_def
  using roundEven_nonneg[of "v / pow2 (exponent64 v - 52)"] pow2_pos[of "exponent64 v - 52"]
  by (simp add: zero_le_mult_iff)

lemma exponent64_eval:
  assumes "pow2 e \<le> \<bar>v\<bar>" "\<bar>v\<bar> < pow2 (e + 1)" "- 1022 \<le> e"
  shows "exponent64 v = e"
proof -
  have pos: "0 < \<bar>v\<bar>" using assms(1) pow2_pos[of e] by linarith
  have "\<lfloor>log 2 \<bar>v\<bar>\<rfloor> = e"
    using assms(1,2) pos by (subst floor_log_eq_powr_iff) (simp_all add: pow2_powr)
  then show ?thesis using assms(3) by (simp add: exponent64_def)
qed

lemma round64_eval:
  assumes "pow2 e \<le> \<bar>v\<bar>" "\<bar>v\<bar> < pow2 (e + 1)" "- 1022 \<le> e"
  shows "round64 v = of_int (roundEven (v / pow2 (e - 52))) * pow2 (e - 52)"
  by (simp add: round64_def Let_def exponent64_eval[OF assms])

lemma round64_error:
  "\<bar>round64 v - v\<bar> \<le> (1 / 2 ^ 53) * max \<bar>v\<bar> (pow2 (- 1022))"
proof (cases "v = 0")
  case True
  then show ?thesis using pow2_pos[of "- 1022"] by (simp add: round64_zero)
next
  case False
  define e where "e = exponent64 v"
  define ulp where "ulp = pow2 (e - 52)"
  have ulp_pos: "0 < ulp" by (simp add: ulp_def pow2_pos)
  have "\<bar>of_int (roundEven (v / ulp)) - v / ulp\<bar> \<le> 1 / 2" by (rule roundEven_near)
  then have "\<bar>of_int (roundEven (v / ulp)) - v / ulp\<bar> * ulp \<le> (1 / 2) * ulp"
    using ulp_pos by (simp add: mult_right_mono)
  moreover have "\<bar>of_int (roundEven (v / ulp)) - v / ulp\<bar> * ulp = \<bar>round64 v - v\<bar>"
  proof -
    have "\<bar>of_int (roundEven (v / ulp)) - v / ulp\<bar> * ulp
            = \<bar>(of_int (roundEven (v / ulp)) - v / ulp) * ulp\<bar>"
      using ulp_pos by (simp add: abs_mult)
    also have "(of_int (roundEven (v / ulp)) - v / ulp) * ulp = round64 v - v"
      using ulp_pos by (simp add: round64_def Let_def ulp_def e_def left_diff_distrib)
    finally show ?thesis .
  qed
  ultimately have err: "\<bar>round64 v - v\<bar> \<le> (1 / 2) * ulp" by simp
  have half: "(1 / 2) * ulp = (1 / 2 ^ 53) * pow2 e"
  proof -
    have "pow2 (e - 52) = pow2 e * pow2 (- 52)" using pow2_add[of e "- 52"] by simp
    then show ?thesis by (simp add: ulp_def pow2_def)
  qed
  have "pow2 e \<le> max \<bar>v\<bar> (pow2 (- 1022))"
  proof (cases "\<lfloor>log 2 \<bar>v\<bar>\<rfloor> \<le> - 1022")
    case True
    then have "e = - 1022" by (simp add: e_def exponent64_def)
    then show ?thesis by simp
  next
    case False
    then have ee: "e = \<lfloor>log 2 \<bar>v\<bar>\<rfloor>" by (simp add: e_def exponent64_def)
    have "0 < \<bar>v\<bar>" using \<open>v \<noteq> 0\<close> by simp
    then have "2 powr (real_of_int \<lfloor>log 2 \<bar>v\<bar>\<rfloor>) \<le> \<bar>v\<bar>"
      using floor_log_eq_powr_iff[of "\<bar>v\<bar>" 2 "\<lfloor>log 2 \<bar>v\<bar>\<rfloor>"] by simp
    then show ?thesis by (simp add: ee pow2_powr)
  qed
  then have "(1 / 2 ^ 53) * pow2 e \<le> (1 / 2 ^ 53) * max \<bar>v\<bar> (pow2 (- 1022))"
    by (simp add: mult_left_mono)
  then show ?thesis using err half by linarith
qed

lemma round64_rel:
  assumes "pow2 (- 1022) \<le> \<bar>v\<bar>"
  shows "\<bar>round64 v - v\<bar> \<le> (1 / 2 ^ 53) * \<bar>v\<bar>"
  using round64_error[of v] assms by (simp add: max_def)

lemma roundEven_between:
  assumes "of_int q - 1 / 2 < v" "v < of_int q + 1 / 2"
  shows "roundEven v = q"
proof (cases "of_int q \<le> v")
  case True
  then have "\<lfloor>v\<rfloor> = q" using assms by linarith
  then show ?thesis using assms by (simp add: roundEven_def)
next
  case False
  then have "\<lfloor>v\<rfloor> = q - 1" using assms by linarith
  then show ?thesis using assms by (simp add: roundEven_def)
qed


section \<open>Properties of the catalog projector and the remapper\<close>

lemma spec_ladderClass_chain:
  "spec_ladderClass m =
     (if m \<le> 0.0 then ClsB else if m \<le> 1.5 then ClsA else if m \<le> 3.0 then ClsF
      else if m \<le> 4.5 then ClsG else if m \<le> 6.0 then ClsK else ClsM)"
  by (simp add: spec_ladderClass_def spec_ladder_def)

lemma classOfLetter_spec_letters:
  "classOfLetter (toUpperCase [c]) = map_of spec_letters (upperChar c)"
  by (simp add: classOfLetter_def toUpperCase_def spec_letters_def)

text \<open>
  Claim C2. For every catalog record the class \<open>inferSpectralClass\<close> computes is the
  class of the reference definition: the upper-cased first character of the trimmed
  spectral string when it is one of O, B, A, F, G, K, M, whatever the magnitude, and
  otherwise the first inclusive threshold of the ladder 0.0, 1.5, 3.0, 4.5, 6.0 that the
  magnitude does not exceed (M beyond). A recognised letter wins at any magnitude; with
  no usable letter the magnitude 1.5 gives A and 1.50001 gives F.
\<close>

theorem inferSpectralClass_is_reference:
  "inferSpectralClass star = spec_spectralClass (cat_spect star) (cat_mag star)
   \<and> inferSpectralClass (star\<lparr>cat_spect := Some ''  g2V'', cat_mag := m\<rparr>) = ClsG
   \<and> inferSpectralClass (star\<lparr>cat_spect := None, cat_mag := 1.5\<rparr>) = ClsA
   \<and> inferSpectralClass (star\<lparr>cat_spect := None, cat_mag := 1.50001\<rparr>) = ClsF
   \<and> inferSpectralClass (star\<lparr>cat_spect := Some ''sdB'', cat_mag := 1.5\<rparr>) = ClsA
   \<and> inferSpectralClass (star\<lparr>cat_spect := Some ''sdB'', cat_mag := 1.50001\<rparr>) = ClsF"
proof -
  have refine: "inferSpectralClass star = spec_spectralClass (cat_spect star) (cat_mag star)"
    unfolding inferSpectralClass_def spec_spectralClass_def Let_def
    by (simp add: spec_ladderClass_chain classOfLetter_spec_letters
          split: list.split option.split)
  have letter: "inferSpectralClass (star\<lparr>cat_spect := Some ''  g2V'', cat_mag := m\<rparr>) = ClsG"
    by (simp add: inferSpectralClass_def trim_def isWhiteSpace_def toUpperCase_def
          upperChar_def classOfLetter_def char_eval)
  have empty: "inferSpectralClass (star\<lparr>cat_spect := None, cat_mag := 1.5\<rparr>) = ClsA"
    "inferSpectralClass (star\<lparr>cat_spect := None, cat_mag := 1.50001\<rparr>) = ClsF"
    by (simp_all add: inferSpectralClass_def trim_def)
  have other: "inferSpectralClass (star\<lparr>cat_spect := Some ''sdB'', cat_mag := 1.5\<rparr>) = ClsA"
    "inferSpectralClass (star\<lparr>cat_spect := Some ''sdB'', cat_mag := 1.50001\<rparr>) = ClsF"
    by (simp_all add: inferSpectralClass_def trim_def isWhiteSpace_def toUpperCase_def
          upperChar_def classOfLetter_def char_eval)
  show ?thesis using refine letter empty other by simp
qed

lemma remapPosition_overflow_example:
  "remapPosition (1 / 2)
     (99999999999999996973312221251036165947450327545502362648241750950346848435554075534196338404706251868027512415973882408182135734368278484639385041047239877871023591066789981811181813306167128854888448, 0, 0) = (0, 0, 0)"
  by (simp add: remapPosition_def remapScale_def sumOfSquares64_def overflows64_def round64_zero)

lemma round64_49: "round64 49 = 49"
  using round64_eval[of 5 49] by (simp add: pow2_def roundEven_def)

lemma round64_196: "round64 196 = 196"
  using round64_eval[of 7 196] by (simp add: pow2_def roundEven_def)

lemma round64_121: "round64 121 = 121"
  using round64_eval[of 6 121] by (simp add: pow2_def roundEven_def)

lemma round64_245: "round64 245 = 245"
  using round64_eval[of 7 245] by (simp add: pow2_def roundEven_def)

lemma round64_366: "round64 366 = 366"
  using round64_eval[of 8 366] by (simp add: pow2_def roundEven_def)

lemma round64_65: "round64 65 = 65"
  using round64_eval[of 6 65] by (simp add: pow2_def roundEven_def)

lemma round64_20: "round64 20 = 20"
  using round64_eval[of 4 20] by (simp add: pow2_def roundEven_def)

lemma round64_sqrt_366: "round64 (sqrt 366) = 5384933377509953 / 2 ^ 48"
proof -
  have lo: "16 \<le> sqrt 366" by (rule real_le_rsqrt) simp
  have hi: "sqrt 366 < 32" by (rule real_less_lsqrt) simp_all
  have ev: "round64 (sqrt 366) = of_int (roundEven (sqrt 366 / pow2 (4 - 52))) * pow2 (4 - 52)"
    using lo hi by (intro round64_eval) (simp_all add: pow2_def)
  have a: "5384933377509953 - 1 / 2 < sqrt 366 * 2 ^ 48"
  proof -
    have "(5384933377509953 - 1 / 2) / 2 ^ 48 < sqrt 366"
      by (rule real_less_rsqrt) (simp add: power2_eq_square)
    then show ?thesis by (simp add: field_simps)
  qed
  have b: "sqrt 366 * 2 ^ 48 < 5384933377509953 + 1 / 2"
  proof -
    have "sqrt 366 < (5384933377509953 + 1 / 2) / 2 ^ 48"
      by (rule real_less_lsqrt) (simp_all add: power2_eq_square)
    then show ?thesis by (simp add: field_simps)
  qed
  have "roundEven (sqrt 366 * 2 ^ 48) = 5384933377509953"
    using a b by (intro roundEven_between) simp_all
  then show ?thesis by (simp add: ev pow2_def)
qed

lemma example_scale_value: "round64 (20 / (5384933377509953 / 2 ^ 48)) = 4708138472139849 / 2 ^ 52"
  using round64_eval[of 0 "20 / (5384933377509953 / 2 ^ 48)"]
  by (simp add: pow2_def roundEven_def)

lemma example_x_value: "round64 (- 7 * (4708138472139849 / 2 ^ 52)) = - (8239242326244736 / 2 ^ 50)"
  using round64_eval[of 2 "- 7 * (4708138472139849 / 2 ^ 52)"]
  by (simp add: pow2_def roundEven_def)

lemma example_y_value: "round64 (- 14 * (4708138472139849 / 2 ^ 52)) = - (8239242326244736 / 2 ^ 49)"
  using round64_eval[of 3 "- 14 * (4708138472139849 / 2 ^ 52)"]
  by (simp add: pow2_def roundEven_def)

lemma example_z_value: "round64 (11 * (4708138472139849 / 2 ^ 52)) = 6473690399192292 / 2 ^ 49"
  using round64_eval[of 3 "11 * (4708138472139849 / 2 ^ 52)"]
  by (simp add: pow2_def roundEven_def)

lemma remapScale_example: "remapScale 0 (- 7, - 14, 11) = 4708138472139849 / 2 ^ 52"
proof -
  have "remapScale 0 (- 7, - 14, 11) = round64 (20 / (5384933377509953 / 2 ^ 48))"
    by (simp add: remapScale_def sumOfSquares64_def overflows64_def round64_49 round64_196 round64_121 round64_245 round64_366 round64_sqrt_366
          randInRange_def round64_65 round64_20 round64_zero Let_def)
  then show ?thesis by (simp only: example_scale_value)
qed

lemma remapPosition_example:
  "remapPosition 0 (- 7, - 14, 11)
     = (- (8239242326244736 / 2 ^ 50), - (8239242326244736 / 2 ^ 49), 6473690399192292 / 2 ^ 49)"
proof -
  have "remapPosition 0 (- 7, - 14, 11)
     = (round64 (- 7 * (4708138472139849 / 2 ^ 52)), round64 (- 14 * (4708138472139849 / 2 ^ 52)),
        round64 (11 * (4708138472139849 / 2 ^ 52)))"
    by (simp add: remapPosition_def remapScale_example)
  then show ?thesis by (simp only: example_x_value example_y_value example_z_value)
qed

lemma remapPosition_example_norm: "vlength (remapPosition 0 (- 7, - 14, 11)) < 20"
proof -
  have "sqrt ((8239242326244736 / 2 ^ 50) * (8239242326244736 / 2 ^ 50)
          + (8239242326244736 / 2 ^ 49) * (8239242326244736 / 2 ^ 49)
          + (6473690399192292 / 2 ^ 49) * (6473690399192292 / 2 ^ 49)) < (20::real)"
    by (rule real_less_lsqrt) simp_all
  then show ?thesis by (simp add: remapPosition_example vlength_def)
qed

lemma round64_abs_bounds:
  assumes "v = 0 \<or> pow2 (- 1022) \<le> \<bar>v\<bar>"
  shows "\<bar>round64 v - v\<bar> \<le> \<bar>v\<bar> / 2 ^ 53"
proof (cases "v = 0")
  case True
  then show ?thesis by (simp add: round64_zero)
next
  case False
  then show ?thesis using assms round64_rel[of v] by simp
qed

lemma round64_bounds:
  assumes "v = 0 \<or> pow2 (- 1022) \<le> v"
  shows "(1 - 1 / 2 ^ 53) * v \<le> round64 v \<and> round64 v \<le> (1 + 1 / 2 ^ 53) * v"
proof -
  have nn: "0 \<le> v" using assms pow2_pos[of "- 1022"] by auto
  have "v = 0 \<or> pow2 (- 1022) \<le> \<bar>v\<bar>" using assms by auto
  then have "\<bar>round64 v - v\<bar> \<le> \<bar>v\<bar> / 2 ^ 53" by (rule round64_abs_bounds)
  then have d: "\<bar>round64 v - v\<bar> \<le> v / 2 ^ 53" using nn by simp
  have e1: "(1 - 1 / 2 ^ 53) * v = v - v / 2 ^ 53" by (simp add: left_diff_distrib)
  have e2: "(1 + 1 / 2 ^ 53) * v = v + v / 2 ^ 53" by (simp add: distrib_right)
  show ?thesis unfolding e1 e2 using d by linarith
qed

lemma square_bounds:
  assumes "safeCoordinate c"
  shows "(1 - 1 / 2 ^ 53) * (c * c) \<le> round64 (c * c)"
    "round64 (c * c) \<le> (1 + 1 / 2 ^ 53) * (c * c)"
    "c \<noteq> 0 \<Longrightarrow> 1 / 2 ^ 1000 \<le> c * c"
    "c * c \<le> 2 ^ 1000"
proof -
  have sq: "c * c = \<bar>c\<bar> * \<bar>c\<bar>" by simp
  have low: "1 / 2 ^ 1000 \<le> c * c" if "c \<noteq> 0"
  proof -
    have "1 / 2 ^ 500 \<le> \<bar>c\<bar>" using assms that by (simp add: safeCoordinate_def)
    then have "(1 / 2 ^ 500) * (1 / 2 ^ 500) \<le> \<bar>c\<bar> * \<bar>c\<bar>"
      by (intro mult_mono) simp_all
    then show ?thesis by (simp only: sq) simp
  qed
  have high: "c * c \<le> 2 ^ 1000"
  proof -
    have "\<bar>c\<bar> \<le> 2 ^ 500" using assms by (auto simp: safeCoordinate_def)
    then have "\<bar>c\<bar> * \<bar>c\<bar> \<le> 2 ^ 500 * 2 ^ 500"
      by (intro mult_mono) simp_all
    then show ?thesis by (simp only: sq) simp
  qed
  have "c * c = 0 \<or> pow2 (- 1022) \<le> c * c"
  proof (cases "c = 0")
    case True then show ?thesis by simp
  next
    case False
    have "pow2 (- 1022) \<le> 1 / 2 ^ 1000" by (simp add: pow2_def)
    then show ?thesis using low[OF False] by linarith
  qed
  from round64_bounds[OF this] low high
  show "(1 - 1 / 2 ^ 53) * (c * c) \<le> round64 (c * c)"
    "round64 (c * c) \<le> (1 + 1 / 2 ^ 53) * (c * c)"
    "c \<noteq> 0 \<Longrightarrow> 1 / 2 ^ 1000 \<le> c * c"
    "c * c \<le> 2 ^ 1000"
    by auto
qed

lemma lo64_facts: "0 < lo64" "0 \<le> lo64" "lo64 \<le> 1" "1 / 2 \<le> lo64"
  by (simp_all add: lo64_def)

lemma hi64_facts: "0 < hi64" "0 \<le> hi64" "1 \<le> hi64" "hi64 \<le> 2"
  by (simp_all add: hi64_def)

lemma round64_lohi:
  assumes "v = 0 \<or> pow2 (- 1022) \<le> v"
  shows "lo64 * v \<le> round64 v" "round64 v \<le> hi64 * v"
  using round64_bounds[OF assms] by (simp_all add: lo64_def hi64_def)

lemma square_lohi:
  assumes "safeCoordinate c"
  shows "lo64 * (c * c) \<le> round64 (c * c)" "round64 (c * c) \<le> hi64 * (c * c)"
  using square_bounds(1,2)[OF assms] by (simp_all add: lo64_def hi64_def)

lemma not_overflows64: "0 \<le> v \<Longrightarrow> v \<le> 2 ^ 1004 \<Longrightarrow> \<not> overflows64 v"
proof -
  assume a: "0 \<le> v" "v \<le> 2 ^ 1004"
  have "(2::real) ^ 1004 < 2 ^ 1024 - 2 ^ 970" by simp
  then show ?thesis using a by (simp add: overflows64_def)
qed

lemma sumOfSquares64_bounds:
  assumes sx: "safeCoordinate x" and sy: "safeCoordinate y" and sz: "safeCoordinate z"
    and nz: "(x, y, z) \<noteq> (0, 0, 0)"
  shows "\<exists>s. sumOfSquares64 (x, y, z) = Some s
           \<and> lo64 * lo64 * lo64 * (x * x + y * y + z * z) \<le> s
           \<and> s \<le> hi64 * hi64 * hi64 * (x * x + y * y + z * z)"
    and "1 / 2 ^ 1000 \<le> x * x + y * y + z * z"
    and "x * x + y * y + z * z \<le> 3 * 2 ^ 1000"
proof -
  define a b c where "a = x * x" and "b = y * y" and "c = z * z"
  define A B C where "A = round64 a" and "B = round64 b" and "C = round64 c"
  note lf = lo64_facts and hf = hi64_facts
  have nn: "0 \<le> a" "0 \<le> b" "0 \<le> c" by (simp_all add: a_def b_def c_def)
  have up: "a \<le> 2 ^ 1000" "b \<le> 2 ^ 1000" "c \<le> 2 ^ 1000"
    using square_bounds(4)[OF sx] square_bounds(4)[OF sy] square_bounds(4)[OF sz]
    by (simp_all add: a_def b_def c_def)
  have Alo: "lo64 * a \<le> A" and Ahi: "A \<le> hi64 * a"
    using square_lohi[OF sx] by (simp_all add: A_def a_def)
  have Blo: "lo64 * b \<le> B" and Bhi: "B \<le> hi64 * b"
    using square_lohi[OF sy] by (simp_all add: B_def b_def)
  have Clo: "lo64 * c \<le> C" and Chi: "C \<le> hi64 * c"
    using square_lohi[OF sz] by (simp_all add: C_def c_def)
  have Ann: "0 \<le> A" "0 \<le> B" "0 \<le> C"
    using nn by (simp_all add: A_def B_def C_def round64_nonneg)
  have h2: "hi64 * v \<le> 2 * v" if "0 \<le> v" for v
    using that hf(4) by (simp add: mult_right_mono)
  have A2: "A \<le> 2 ^ 1001" "B \<le> 2 ^ 1001" "C \<le> 2 ^ 1001"
    using Ahi Bhi Chi h2[OF nn(1)] h2[OF nn(2)] h2[OF nn(3)] up by simp_all
  define t :: real where "t = 1 / 2 ^ 1000"
  have tpos: "0 < t" by (simp add: t_def)
  have sqt: "1 / 2 ^ 1000 \<le> v \<Longrightarrow> t \<le> v" for v by (simp add: t_def)
  have P_low: "t \<le> a + b + c"
  proof -
    from nz consider "x \<noteq> 0" | "y \<noteq> 0" | "z \<noteq> 0" by auto
    then show ?thesis
    proof cases
      case 1
      then have "t \<le> a" using sqt[OF square_bounds(3)[OF sx]] by (simp add: a_def)
      then show ?thesis using nn by linarith
    next
      case 2
      then have "t \<le> b" using sqt[OF square_bounds(3)[OF sy]] by (simp add: b_def)
      then show ?thesis using nn by linarith
    next
      case 3
      then have "t \<le> c" using sqt[OF square_bounds(3)[OF sz]] by (simp add: c_def)
      then show ?thesis using nn by linarith
    qed
  qed
  have tiny: "pow2 (- 1022) \<le> t / 4" by (simp add: pow2_def t_def)
  \<comment> \<open>first sum\<close>
  have ABlo: "lo64 * (a + b) \<le> A + B" and ABhi: "A + B \<le> hi64 * (a + b)"
    using Alo Blo Ahi Bhi by (simp_all add: distrib_left)
  have ABcase: "A + B = 0 \<or> pow2 (- 1022) \<le> A + B"
  proof (cases "x = 0 \<and> y = 0")
    case True
    then show ?thesis by (simp add: A_def B_def a_def b_def round64_zero)
  next
    case False
    then have "x \<noteq> 0 \<or> y \<noteq> 0" by simp
    then have "t \<le> a + b"
    proof
      assume "x \<noteq> 0"
      then have "t \<le> a" using sqt[OF square_bounds(3)[OF sx]] by (simp add: a_def)
      then show ?thesis using nn by linarith
    next
      assume "y \<noteq> 0"
      then have "t \<le> b" using sqt[OF square_bounds(3)[OF sy]] by (simp add: b_def)
      then show ?thesis using nn by linarith
    qed
    then have "(1 / 2) * t \<le> lo64 * (a + b)"
      using lf(4) tpos by (intro mult_mono) simp_all
    then show ?thesis using ABlo tiny tpos by linarith
  qed
  define S1 where "S1 = round64 (A + B)"
  have S1lo: "lo64 * (A + B) \<le> S1" and S1hi: "S1 \<le> hi64 * (A + B)"
    using round64_lohi[OF ABcase] by (simp_all add: S1_def)
  have S1lo2: "lo64 * lo64 * (a + b) \<le> S1"
  proof -
    have "lo64 * (lo64 * (a + b)) \<le> lo64 * (A + B)"
      using ABlo lf(2) by (rule mult_left_mono)
    then show ?thesis using S1lo by (simp add: mult.assoc)
  qed
  have S1hi2: "S1 \<le> hi64 * hi64 * (a + b)"
  proof -
    have "hi64 * (A + B) \<le> hi64 * (hi64 * (a + b))"
      using ABhi hf(2) by (rule mult_left_mono)
    then show ?thesis using S1hi by (simp add: mult.assoc)
  qed
  have S1nn: "0 \<le> S1" using Ann by (simp add: S1_def round64_nonneg)
  have S1up: "S1 \<le> 2 ^ 1003"
  proof -
    have "hi64 * (A + B) \<le> 2 * (A + B)" using h2[of "A + B"] Ann by simp
    then show ?thesis using S1hi A2 by simp
  qed
  \<comment> \<open>second sum\<close>
  define P where "P = a + b + c"
  have lo2: "lo64 * lo64 * c \<le> lo64 * c"
    using lf nn(3) by (simp add: mult_left_le_one_le mult_right_mono)
  have hi2: "hi64 * c \<le> hi64 * hi64 * c"
  proof -
    have "1 * (hi64 * c) \<le> hi64 * (hi64 * c)"
      using hf nn(3) by (intro mult_right_mono) simp_all
    then show ?thesis by (simp add: mult.assoc)
  qed
  have Slo: "lo64 * lo64 * P \<le> S1 + C"
    using S1lo2 Clo lo2 by (simp add: P_def distrib_left)
  have Shi: "S1 + C \<le> hi64 * hi64 * P"
    using S1hi2 Chi hi2 by (simp add: P_def distrib_left)
  have Scase: "S1 + C = 0 \<or> pow2 (- 1022) \<le> S1 + C"
  proof -
    have q: "1 / 4 \<le> lo64 * lo64"
      using mult_mono[of "1 / 2" lo64 "1 / 2" lo64] lf by simp
    have tP: "t \<le> P" using P_low by (simp add: P_def)
    have "(1 / 4) * t \<le> (lo64 * lo64) * P"
      using mult_mono[OF q tP] lf tpos by simp
    then show ?thesis using Slo tiny tpos by linarith
  qed
  define s where "s = round64 (S1 + C)"
  have slo: "lo64 * (S1 + C) \<le> s" and shi: "s \<le> hi64 * (S1 + C)"
    using round64_lohi[OF Scase] by (simp_all add: s_def)
  have slo3: "lo64 * lo64 * lo64 * P \<le> s"
  proof -
    have "lo64 * (lo64 * lo64 * P) \<le> lo64 * (S1 + C)"
      using Slo lf(2) by (rule mult_left_mono)
    then show ?thesis using slo by (simp add: mult.assoc)
  qed
  have shi3: "s \<le> hi64 * hi64 * hi64 * P"
  proof -
    have "hi64 * (S1 + C) \<le> hi64 * (hi64 * hi64 * P)"
      using Shi hf(2) by (rule mult_left_mono)
    then show ?thesis using shi by (simp add: mult.assoc)
  qed
  have no1: "\<not> overflows64 a" "\<not> overflows64 b" "\<not> overflows64 c"
    using nn up by (simp_all add: not_overflows64)
  have no2: "\<not> overflows64 (A + B)"
    using Ann A2 by (intro not_overflows64) simp_all
  have no3: "\<not> overflows64 (S1 + C)"
    using S1nn Ann S1up A2 by (intro not_overflows64) simp_all
  have "sumOfSquares64 (x, y, z) = Some s"
    using no1 no2 no3
    by (simp add: sumOfSquares64_def Let_def a_def[symmetric] b_def[symmetric] c_def[symmetric]
          A_def[symmetric] B_def[symmetric] C_def[symmetric] S1_def[symmetric] s_def[symmetric])
  then show "\<exists>s. sumOfSquares64 (x, y, z) = Some s
           \<and> lo64 * lo64 * lo64 * (x * x + y * y + z * z) \<le> s
           \<and> s \<le> hi64 * hi64 * hi64 * (x * x + y * y + z * z)"
    using slo3 shi3 by (simp add: P_def a_def b_def c_def)
  show "1 / 2 ^ 1000 \<le> x * x + y * y + z * z"
    using P_low by (simp add: a_def b_def c_def t_def)
  show "x * x + y * y + z * z \<le> 3 * 2 ^ 1000"
    using up by (simp add: a_def b_def c_def)
qed

lemma targetR_bounds:
  assumes "0 \<le> u" "u < 1"
  shows "20 * lo64 \<le> randInRange u 20 85" "randInRange u 20 85 \<le> 85 * (hi64 * hi64)"
proof -
  define w where "w = round64 (u * 65)"
  have wnn: "0 \<le> w" using assms by (simp add: w_def round64_nonneg)
  have "\<bar>w - u * 65\<bar> \<le> (1 / 2 ^ 53) * max \<bar>u * 65\<bar> (pow2 (- 1022))"
    unfolding w_def by (rule round64_error)
  moreover have "max \<bar>u * 65\<bar> (pow2 (- 1022)) \<le> 65"
    using assms by (simp add: pow2_def abs_mult)
  ultimately have "\<bar>w - u * 65\<bar> \<le> (1 / 2 ^ 53) * 65"
    by (meson mult_left_mono order_trans zero_le_divide_1_iff zero_le_numeral zero_le_power)
  then have "w - u * 65 \<le> (1 / 2 ^ 53) * 65" by (simp only: abs_le_iff)
  moreover have "65 * hi64 = 65 + (1 / 2 ^ 53) * 65" by (simp add: hi64_def)
  ultimately have wup: "w \<le> 65 * hi64" using assms by linarith
  have case20: "20 + w = 0 \<or> pow2 (- 1022) \<le> 20 + w"
  proof -
    have "pow2 (- 1022) \<le> 20" by (simp add: pow2_def)
    then show ?thesis using wnn by linarith
  qed
  have T: "randInRange u 20 85 = round64 (20 + w)"
    by (simp add: randInRange_def round64_65 w_def)
  have lo: "lo64 * (20 + w) \<le> round64 (20 + w)" and hi: "round64 (20 + w) \<le> hi64 * (20 + w)"
    using round64_lohi[OF case20] by simp_all
  have "lo64 * 20 \<le> lo64 * (20 + w)" using wnn lo64_facts(2) by (intro mult_left_mono) simp_all
  then show "20 * lo64 \<le> randInRange u 20 85" using lo by (simp add: T)
  have "20 + w \<le> 85 * hi64" using wup hi64_facts(3) by linarith
  then have "hi64 * (20 + w) \<le> hi64 * (85 * hi64)"
    using hi64_facts(2) by (rule mult_left_mono)
  then show "randInRange u 20 85 \<le> 85 * (hi64 * hi64)" using hi by (simp add: T)
qed

lemma rounded_square_bounds:
  assumes "\<bar>R - v\<bar> \<le> \<bar>v\<bar> / 2 ^ 53"
  shows "lo64\<^sup>2 * (v * v) \<le> R * R" "R * R \<le> hi64\<^sup>2 * (v * v)"
proof -
  define e :: real where "e = \<bar>v\<bar> / 2 ^ 53"
  have l: "lo64 * \<bar>v\<bar> = \<bar>v\<bar> - e" by (simp add: lo64_def e_def left_diff_distrib)
  have h: "hi64 * \<bar>v\<bar> = \<bar>v\<bar> + e" by (simp add: hi64_def e_def distrib_right)
  have d: "\<bar>R - v\<bar> \<le> e" using assms by (simp only: e_def)
  have a: "lo64 * \<bar>v\<bar> \<le> \<bar>R\<bar>" unfolding l using d by linarith
  have b: "\<bar>R\<bar> \<le> hi64 * \<bar>v\<bar>" unfolding h using d by linarith
  have "(lo64 * \<bar>v\<bar>) * (lo64 * \<bar>v\<bar>) \<le> \<bar>R\<bar> * \<bar>R\<bar>"
    using a lo64_facts(2) by (intro mult_mono) simp_all
  then show "lo64\<^sup>2 * (v * v) \<le> R * R" by (simp add: power2_eq_square algebra_simps)
  have "\<bar>R\<bar> * \<bar>R\<bar> \<le> (hi64 * \<bar>v\<bar>) * (hi64 * \<bar>v\<bar>)"
    using b hi64_facts(2) by (intro mult_mono) simp_all
  then show "R * R \<le> hi64\<^sup>2 * (v * v)" by (simp add: power2_eq_square algebra_simps)
qed

lemma shell_numeric:
  "hi64 ^ 5 * (20 * (1 - 1 / 2 ^ 50))\<^sup>2 \<le> 400 * lo64 ^ 6"
  "7225 * hi64 ^ 8 \<le> lo64 ^ 5 * (85 * (1 + 1 / 2 ^ 50))\<^sup>2"
  by (simp_all add: lo64_def hi64_def power_divide)

lemma remapPosition_bounds:
  assumes u: "0 \<le> u" "u < 1" and nz: "(x, y, z) \<noteq> (0, 0, 0)"
    and sx: "safeCoordinate x" and sy: "safeCoordinate y" and sz: "safeCoordinate z"
  defines "k \<equiv> remapScale u (x, y, z)"
  shows "0 < k"
    and "\<bar>round64 (x * k) - x * k\<bar> \<le> \<bar>x * k\<bar> / 2 ^ 53"
    and "\<bar>round64 (y * k) - y * k\<bar> \<le> \<bar>y * k\<bar> / 2 ^ 53"
    and "\<bar>round64 (z * k) - z * k\<bar> \<le> \<bar>z * k\<bar> / 2 ^ 53"
    and "20 * (1 - 1 / 2 ^ 50) \<le> vlength (round64 (x * k), round64 (y * k), round64 (z * k))"
    and "vlength (round64 (x * k), round64 (y * k), round64 (z * k)) \<le> 85 * (1 + 1 / 2 ^ 50)"
proof -
  note lf = lo64_facts and hf = hi64_facts
  define P where "P = x * x + y * y + z * z"
  obtain s where ss: "sumOfSquares64 (x, y, z) = Some s"
    and slo: "lo64 * lo64 * lo64 * P \<le> s" and shi: "s \<le> hi64 * hi64 * hi64 * P"
    using sumOfSquares64_bounds(1)[OF sx sy sz nz] unfolding P_def by blast
  define t :: real where "t = 1 / 2 ^ 1000"
  have tpos: "0 < t" by (simp add: t_def)
  have Plow: "t \<le> P" and Pup: "P \<le> 3 * 2 ^ 1000"
    using sumOfSquares64_bounds(2,3)[OF sx sy sz nz] by (simp_all add: P_def t_def)
  have Ppos: "0 < P" using Plow tpos by linarith
  have L3: "1 / 8 \<le> lo64 * lo64 * lo64"
    using mult_mono[OF mult_mono[of "1 / 2" lo64 "1 / 2" lo64] lf(4)] lf by simp
  have H3: "hi64 * hi64 * hi64 \<le> 8"
    using mult_mono[OF mult_mono[of hi64 2 hi64 2] hf(4)] hf by simp
  have s_low: "t / 8 \<le> s"
  proof -
    have "(1 / 8) * t \<le> (lo64 * lo64 * lo64) * P"
      using mult_mono[OF L3 Plow] lf tpos by simp
    then show ?thesis using slo by simp
  qed
  have spos: "0 < s" using s_low tpos by linarith
  have s_up: "s \<le> 2 ^ 1005"
  proof -
    have "(hi64 * hi64 * hi64) * P \<le> 8 * (3 * 2 ^ 1000)"
      using mult_mono[OF H3 Pup] Ppos by simp
    then show ?thesis using shi by simp
  qed
  \<comment> \<open>the rounded square root\<close>
  define rt where "rt = sqrt s"
  have rt2: "rt * rt = s" using spos by (simp add: rt_def)
  have rtpos: "0 < rt" using spos by (simp add: rt_def)
  have rt_low: "pow2 (- 1022) \<le> rt"
  proof -
    have "(pow2 (- 1022))\<^sup>2 \<le> t / 8" by (simp add: pow2_def t_def power_divide)
    then have "(pow2 (- 1022))\<^sup>2 \<le> s" using s_low by linarith
    then show ?thesis unfolding rt_def by (rule real_le_rsqrt)
  qed
  define r where "r = round64 rt"
  have rlo: "lo64 * rt \<le> r" and rhi: "r \<le> hi64 * rt"
    using round64_lohi[of rt] rt_low by (simp_all add: r_def)
  have rpos: "0 < r"
  proof -
    have "0 < lo64 * rt" using lf(1) rtpos by simp
    then show ?thesis using rlo by linarith
  qed
  have r2lo: "lo64 ^ 5 * P \<le> r * r"
  proof -
    have "(lo64 * rt) * (lo64 * rt) \<le> r * r"
      using rlo lf rtpos rpos by (intro mult_mono) simp_all
    then have a: "lo64 * lo64 * s \<le> r * r" using rt2 by (simp add: algebra_simps)
    have "lo64 * lo64 * (lo64 * lo64 * lo64 * P) \<le> lo64 * lo64 * s"
      using slo lf by (intro mult_left_mono) simp_all
    then show ?thesis using a by (simp add: power_eq_if algebra_simps)
  qed
  have r2hi: "r * r \<le> hi64 ^ 5 * P"
  proof -
    have "r * r \<le> (hi64 * rt) * (hi64 * rt)"
      using rhi hf rpos by (intro mult_mono) simp_all
    then have a: "r * r \<le> hi64 * hi64 * s" using rt2 by (simp add: algebra_simps)
    have "hi64 * hi64 * s \<le> hi64 * hi64 * (hi64 * hi64 * hi64 * P)"
      using shi hf by (intro mult_left_mono) simp_all
    then show ?thesis using a by (simp add: power_eq_if algebra_simps)
  qed
  have r_up: "r \<le> 2 ^ 504"
  proof -
    have "rt * rt \<le> 2 ^ 1005" using rt2 s_up by simp
    moreover have "r * r \<le> (2 * rt) * (2 * rt)"
    proof -
      have "r \<le> 2 * rt" using rhi hf(4) rtpos
        by (meson less_eq_real_def mult_right_mono order_trans)
      then show ?thesis using rpos by (intro mult_mono) simp_all
    qed
    ultimately have "r\<^sup>2 \<le> (2 ^ 504)\<^sup>2" by (simp add: power2_eq_square)
    then show ?thesis by (rule power2_le_imp_le) simp
  qed
  \<comment> \<open>the target radius and the scale factor\<close>
  define T where "T = randInRange u 20 85"
  have Tlo: "20 * lo64 \<le> T" and Thi: "T \<le> 85 * (hi64 * hi64)"
    using targetR_bounds[OF u] by (simp_all add: T_def)
  have T10: "10 \<le> T" using Tlo lf(4) by linarith
  define q where "q = T / r"
  have qr: "q * r = T" using rpos by (simp add: q_def)
  have q_big: "10 / 2 ^ 504 \<le> q"
    unfolding q_def using T10 r_up rpos by (intro frac_le) simp_all
  have qpos: "0 < q" using q_big by (meson divide_pos_pos less_le_trans zero_less_numeral zero_less_power)
  have q_low: "pow2 (- 1022) \<le> q"
  proof -
    have "pow2 (- 1022) \<le> 10 / 2 ^ 504" by (simp add: pow2_def)
    then show ?thesis using q_big by linarith
  qed
  have k_eq: "k = round64 q"
    using rpos by (simp add: k_def remapScale_def ss Let_def rt_def[symmetric] r_def[symmetric]
        T_def[symmetric] q_def)
  have klo: "lo64 * q \<le> k" and khi: "k \<le> hi64 * q"
    using round64_lohi[of q] q_low by (simp_all add: k_eq)
  have kpos: "0 < k"
  proof -
    have "0 < lo64 * q" using lf(1) qpos by simp
    then show ?thesis using klo by linarith
  qed
  show "0 < k" by (rule kpos)
  have k_big: "5 / 2 ^ 504 \<le> k"
  proof -
    have "(1 / 2) * (10 / 2 ^ 504) \<le> lo64 * q"
      using mult_mono[OF lf(4) q_big] lf by simp
    then show ?thesis using klo by simp
  qed
  have krlo: "lo64 * T \<le> k * r" and krhi: "k * r \<le> hi64 * T"
  proof -
    have "(lo64 * q) * r \<le> k * r" using klo rpos by (intro mult_right_mono) simp_all
    then show "lo64 * T \<le> k * r" using qr by (simp add: mult.assoc)
    have "k * r \<le> (hi64 * q) * r" using khi rpos by (intro mult_right_mono) simp_all
    then show "k * r \<le> hi64 * T" using qr by (simp add: mult.assoc)
  qed
  \<comment> \<open>the rounded products\<close>
  have coord: "\<bar>round64 (c * k) - c * k\<bar> \<le> \<bar>c * k\<bar> / 2 ^ 53" if "safeCoordinate c" for c
  proof (rule round64_abs_bounds, cases "c = 0")
    case True
    then show "c * k = 0 \<or> pow2 (- 1022) \<le> \<bar>c * k\<bar>" by simp
  next
    case False
    then have "1 / 2 ^ 500 \<le> \<bar>c\<bar>" using that by (simp add: safeCoordinate_def)
    then have "(1 / 2 ^ 500) * (5 / 2 ^ 504) \<le> \<bar>c\<bar> * k"
      using k_big by (intro mult_mono) simp_all
    moreover have "pow2 (- 1022) \<le> (1 / 2 ^ 500) * (5 / 2 ^ 504)" by (simp add: pow2_def)
    ultimately have "pow2 (- 1022) \<le> \<bar>c\<bar> * k" by linarith
    then show "c * k = 0 \<or> pow2 (- 1022) \<le> \<bar>c * k\<bar>" using kpos by (simp add: abs_mult)
  qed
  show cx: "\<bar>round64 (x * k) - x * k\<bar> \<le> \<bar>x * k\<bar> / 2 ^ 53" by (rule coord[OF sx])
  show cy: "\<bar>round64 (y * k) - y * k\<bar> \<le> \<bar>y * k\<bar> / 2 ^ 53" by (rule coord[OF sy])
  show cz: "\<bar>round64 (z * k) - z * k\<bar> \<le> \<bar>z * k\<bar> / 2 ^ 53" by (rule coord[OF sz])
  \<comment> \<open>the squared norm of the result\<close>
  define N2 where "N2 = round64 (x * k) * round64 (x * k) + round64 (y * k) * round64 (y * k)
                        + round64 (z * k) * round64 (z * k)"
  define X where "X = k * k * P"
  have Xeq: "X = (x * k) * (x * k) + (y * k) * (y * k) + (z * k) * (z * k)"
    by (simp add: X_def P_def algebra_simps)
  have N2lo: "lo64\<^sup>2 * X \<le> N2"
    using rounded_square_bounds(1)[OF cx] rounded_square_bounds(1)[OF cy]
      rounded_square_bounds(1)[OF cz]
    by (simp add: N2_def Xeq distrib_left)
  have N2hi: "N2 \<le> hi64\<^sup>2 * X"
    using rounded_square_bounds(2)[OF cx] rounded_square_bounds(2)[OF cy]
      rounded_square_bounds(2)[OF cz]
    by (simp add: N2_def Xeq distrib_left)
  have Xnn: "0 \<le> X" using Ppos by (simp add: X_def)
  have kr2: "(k * r)\<^sup>2 = k * k * (r * r)" by (simp add: power2_eq_square algebra_simps)
  \<comment> \<open>lower bound\<close>
  have lowT: "400 * lo64 ^ 4 \<le> (lo64 * T)\<^sup>2"
  proof -
    have "(lo64 * (20 * lo64))\<^sup>2 \<le> (lo64 * T)\<^sup>2"
      using Tlo lf by (intro power_mono mult_left_mono) simp_all
    then show ?thesis by (simp add: power_mult_distrib power2_eq_square power_eq_if algebra_simps)
  qed
  have "(lo64 * T)\<^sup>2 \<le> (k * r)\<^sup>2"
    using krlo lf T10 by (intro power_mono) simp_all
  also have "\<dots> \<le> k * k * (hi64 ^ 5 * P)"
    unfolding kr2 using r2hi kpos by (intro mult_left_mono) simp_all
  also have "\<dots> = hi64 ^ 5 * X" by (simp add: X_def)
  finally have a1: "400 * lo64 ^ 4 \<le> hi64 ^ 5 * X" using lowT by linarith
  have "lo64\<^sup>2 * (400 * lo64 ^ 4) \<le> lo64\<^sup>2 * (hi64 ^ 5 * X)"
    using a1 by (intro mult_left_mono) simp_all
  also have "\<dots> = hi64 ^ 5 * (lo64\<^sup>2 * X)" by simp
  also have "\<dots> \<le> hi64 ^ 5 * N2" using N2lo hf by (intro mult_left_mono) simp_all
  finally have "400 * lo64 ^ 6 \<le> hi64 ^ 5 * N2"
    by (simp add: power_eq_if power2_eq_square algebra_simps)
  then have "hi64 ^ 5 * (20 * (1 - 1 / 2 ^ 50))\<^sup>2 \<le> hi64 ^ 5 * N2"
    using shell_numeric(1) by linarith
  then have lowN2: "(20 * (1 - 1 / 2 ^ 50))\<^sup>2 \<le> N2"
    using hf(1) by (simp del: power_mult_distrib)
  \<comment> \<open>upper bound\<close>
  have upT: "(hi64 * T)\<^sup>2 \<le> 7225 * hi64 ^ 6"
  proof -
    have "(hi64 * T)\<^sup>2 \<le> (hi64 * (85 * (hi64 * hi64)))\<^sup>2"
      using Thi hf T10 by (intro power_mono mult_left_mono) simp_all
    then show ?thesis by (simp add: power_mult_distrib power2_eq_square power_eq_if algebra_simps)
  qed
  have "k * k * (lo64 ^ 5 * P) \<le> (k * r)\<^sup>2"
    unfolding kr2 using r2lo kpos by (intro mult_left_mono) simp_all
  also have "\<dots> \<le> (hi64 * T)\<^sup>2"
    using krhi kpos rpos by (intro power_mono) simp_all
  finally have "lo64 ^ 5 * X \<le> 7225 * hi64 ^ 6" using upT by (simp add: X_def algebra_simps)
  then have "hi64\<^sup>2 * (lo64 ^ 5 * X) \<le> hi64\<^sup>2 * (7225 * hi64 ^ 6)"
    by (intro mult_left_mono) simp_all
  moreover have "lo64 ^ 5 * N2 \<le> lo64 ^ 5 * (hi64\<^sup>2 * X)"
    using N2hi lf by (intro mult_left_mono) simp_all
  ultimately have "lo64 ^ 5 * N2 \<le> 7225 * hi64 ^ 8"
    by (simp add: power_eq_if power2_eq_square algebra_simps)
  then have "lo64 ^ 5 * N2 \<le> lo64 ^ 5 * (85 * (1 + 1 / 2 ^ 50))\<^sup>2"
    using shell_numeric(2) by linarith
  then have upN2: "N2 \<le> (85 * (1 + 1 / 2 ^ 50))\<^sup>2"
    using lf(1) by (simp del: power_mult_distrib)
  have vl: "vlength (round64 (x * k), round64 (y * k), round64 (z * k)) = sqrt N2"
    by (simp add: vlength_def N2_def)
  show "20 * (1 - 1 / 2 ^ 50) \<le> vlength (round64 (x * k), round64 (y * k), round64 (z * k))"
    unfolding vl using lowN2 by (rule real_le_rsqrt)
  show "vlength (round64 (x * k), round64 (y * k), round64 (z * k)) \<le> 85 * (1 + 1 / 2 ^ 50)"
    unfolding vl by (rule real_le_lsqrt) (use upN2 in simp_all)
qed

text \<open>
  Claim C3, as the code has it. For a raw position that is not the zero vector and whose
  non-zero coordinates have magnitudes between \<open>2 ^ -500\<close> and \<open>2 ^ 500\<close>, and any value
  \<open>u\<close> in \<open>[0, 1)\<close> of the generator, \<open>remapPosition\<close> multiplies the three raw
  coordinates by one positive factor and rounds each product once, so every coordinate of
  the result is within the relative error \<open>2 ^ -53\<close> of the scaled raw coordinate; the
  norm of the result lies in \<open>[20 (1 - 2 ^ -50), 85 (1 + 2 ^ -50)]\<close>.
\<close>

theorem remapPosition_scaled_within_rounding:
  assumes u: "0 \<le> u" "u < 1" and nz: "(x, y, z) \<noteq> (0, 0, 0)"
    and sx: "safeCoordinate x" and sy: "safeCoordinate y" and sz: "safeCoordinate z"
  shows "0 < remapScale u (x, y, z)
     \<and> remapPosition u (x, y, z)
           = (round64 (x * remapScale u (x, y, z)), round64 (y * remapScale u (x, y, z)),
              round64 (z * remapScale u (x, y, z)))
     \<and> \<bar>fst (remapPosition u (x, y, z)) - x * remapScale u (x, y, z)\<bar>
           \<le> \<bar>x * remapScale u (x, y, z)\<bar> / 2 ^ 53
     \<and> \<bar>fst (snd (remapPosition u (x, y, z))) - y * remapScale u (x, y, z)\<bar>
           \<le> \<bar>y * remapScale u (x, y, z)\<bar> / 2 ^ 53
     \<and> \<bar>snd (snd (remapPosition u (x, y, z))) - z * remapScale u (x, y, z)\<bar>
           \<le> \<bar>z * remapScale u (x, y, z)\<bar> / 2 ^ 53
     \<and> 20 * (1 - 1 / 2 ^ 50) \<le> vlength (remapPosition u (x, y, z))
     \<and> vlength (remapPosition u (x, y, z)) \<le> 85 * (1 + 1 / 2 ^ 50)"
proof -
  have r: "remapPosition u (x, y, z)
           = (round64 (x * remapScale u (x, y, z)), round64 (y * remapScale u (x, y, z)),
              round64 (z * remapScale u (x, y, z)))"
    by (simp add: remapPosition_def Let_def)
  note b = remapPosition_bounds[OF u nz sx sy sz]
  show ?thesis
    unfolding r fst_conv snd_conv using b by (intro conjI refl)
qed

theorem remapPosition_scaled_within_rounding_witness:
  "(0::real) \<le> 1 / 2 \<and> (1 / 2 :: real) < 1 \<and> (3, 4, 0) \<noteq> (0::real, 0::real, 0::real)
   \<and> safeCoordinate 3 \<and> safeCoordinate 4 \<and> safeCoordinate 0
   \<and> 0 < remapScale (1 / 2) (3, 4, 0)
   \<and> 20 * (1 - 1 / 2 ^ 50) \<le> vlength (remapPosition (1 / 2) (3, 4, 0))
   \<and> vlength (remapPosition (1 / 2) (3, 4, 0)) \<le> 85 * (1 + 1 / 2 ^ 50)"
proof -
  have h: "(0::real) \<le> 1 / 2" "(1 / 2 :: real) < 1" "(3, 4, 0) \<noteq> (0::real, 0::real, 0::real)"
    by simp_all
  have s: "safeCoordinate 3" "safeCoordinate 4" "safeCoordinate 0"
    by (simp_all add: safeCoordinate_def)
  note inst = remapPosition_scaled_within_rounding [OF h s]
  have k: "0 < remapScale (1 / 2) (3, 4, 0)"
    using inst by (elim conjE)
  have lo: "20 * (1 - 1 / 2 ^ 50) \<le> vlength (remapPosition (1 / 2) (3, 4, 0))"
    using inst by (elim conjE)
  have hi: "vlength (remapPosition (1 / 2) (3, 4, 0)) \<le> 85 * (1 + 1 / 2 ^ 50)"
    using inst by (elim conjE)
  show ?thesis using h s k lo hi by (intro conjI)
qed

text \<open>
  Claim C3 as stated fails. For the binary64 number nearest to \<open>1e200\<close> on the first axis
  the square overflows, the factor is 0 and the result is the origin. For the raw
  position \<open>(-7, -14, 11)\<close> and the generator value 0 the roundings leave a norm below 20.
\<close>

theorem remapPosition_shell_counterexample:
  "vlength (remapPosition (1 / 2)
      (99999999999999996973312221251036165947450327545502362648241750950346848435554075534196338404706251868027512415973882408182135734368278484639385041047239877871023591066789981811181813306167128854888448, 0, 0)) < 20
   \<and> vlength (remapPosition 0 (- 7, - 14, 11)) < 20"
proof -
  have "vlength (remapPosition (1 / 2)
      (99999999999999996973312221251036165947450327545502362648241750950346848435554075534196338404706251868027512415973882408182135734368278484639385041047239877871023591066789981811181813306167128854888448, 0, 0)) < 20"
    by (simp only: remapPosition_overflow_example) (simp add: vlength_def)
  then show ?thesis using remapPosition_example_norm by (intro conjI)
qed

text \<open>
  Claim C4, evaluated on the code. For the zero vector (the record of the Sun) the sum of
  squares is 0, \<open>|| 1e-6\<close> replaces the norm, and the three products with the zero
  coordinates are 0: \<open>remapPosition\<close> returns the origin for every value of the
  generator, a point of norm 0 and not of norm 20 or more.
\<close>

theorem remapPosition_zero_is_origin:
  "remapPosition u (0, 0, 0) = (0, 0, 0)
   \<and> vlength (remapPosition u (0, 0, 0)) = 0
   \<and> \<not> 20 \<le> vlength (remapPosition u (0, 0, 0))"
  by (simp add: remapPosition_def round64_zero vlength_def)


section \<open>Properties of the selection mix\<close>











section \<open>Properties of the name search\<close>

lemma inferSpectralClass_sirius: "inferSpectralClass sirius = ClsA"
  by (simp add: inferSpectralClass_def sirius_def trim_def isWhiteSpace_def toUpperCase_def
        upperChar_def classOfLetter_def char_eval)

lemma sirius_matches: "nameMatches ''sirius'' sirius"
  by (simp add: nameMatches_def sirius_def toLowerCase_def lowerChar_def char_eval)

lemma sirius_no_match: "\<not> nameMatches ''Vega'' sirius" "\<not> nameMatches ''  '' sirius"
  by (simp_all add: nameMatches_def sirius_def toLowerCase_def lowerChar_def char_eval)

lemma trim_examples: "trim ''Vega'' \<noteq> []" "trim ''  '' = []" "trim ''sirius'' \<noteq> []"
  by (simp_all add: trim_def isWhiteSpace_def)

lemma round64_2500: "round64 2500 = 2500"
  using round64_eval[of 11 2500] by (simp add: pow2_def roundEven_def)

lemma round64_625: "round64 625 = 625"
  using round64_eval[of 9 625] by (simp add: pow2_def roundEven_def)

lemma round64_1875: "round64 1875 = 1875"
  using round64_eval[of 10 1875] by (simp add: pow2_def roundEven_def)

lemma round64_8125: "round64 8125 = 8125"
  using round64_eval[of 12 8125] by (simp add: pow2_def roundEven_def)

lemma round64_9375: "round64 9375 = 9375"
  using round64_eval[of 13 9375] by (simp add: pow2_def roundEven_def)

lemma temperature_A_quarter: "randInRange (1 / 4) 7500 10000 = 8125"
  by (simp add: randInRange_def round64_2500 round64_625 round64_8125)

lemma temperature_A_three_quarters: "randInRange (3 / 4) 7500 10000 = 9375"
  by (simp add: randInRange_def round64_2500 round64_1875 round64_9375)

text \<open>The radius of a class A star for the generator value \<open>1/2\<close>, each step in binary64.\<close>

lemma radius_A_half:
  "randInRange (1 / 2) (round64 (14 / 10)) 2 = 7656119366529843 / 2 ^ 52"
proof -
  have a: "round64 (14 / 10) = 6305039478318694 / 2 ^ 52"
    using round64_eval[of 0 "14 / 10"] by (simp add: pow2_def roundEven_def)
  have b: "round64 (2 - 6305039478318694 / 2 ^ 52) = 5404319552844596 / 2 ^ 53"
    using round64_eval[of "- 1" "2 - 6305039478318694 / 2 ^ 52"]
    by (simp add: pow2_def roundEven_def)
  have c: "round64 (1 / 2 * (5404319552844596 / 2 ^ 53)) = 5404319552844596 / 2 ^ 54"
    using round64_eval[of "- 2" "1 / 2 * (5404319552844596 / 2 ^ 53)"]
    by (simp add: pow2_def roundEven_def)
  have d: "round64 (6305039478318694 / 2 ^ 52 + 5404319552844596 / 2 ^ 54)
             = 7656119366529843 / 2 ^ 52"
    using round64_eval[of 0 "6305039478318694 / 2 ^ 52 + 5404319552844596 / 2 ^ 54"]
    by (simp add: pow2_def roundEven_def)
  show ?thesis by (simp only: randInRange_def a b c d)
qed

text \<open>
  The radius of a class F star for the generator value \<open>1/2\<close> is below \<open>1.275\<close>, and is
  printed \<open>1.27\<close>.
\<close>

lemma radius_F_half:
  "toFixed2 (randInRange (1 / 2) (round64 (115 / 100)) (round64 (14 / 10))) = ''1.27''"
proof -
  have a: "round64 (14 / 10) = 6305039478318694 / 2 ^ 52"
    using round64_eval[of 0 "14 / 10"] by (simp add: pow2_def roundEven_def)
  have a': "round64 (115 / 100) = 5179139571476070 / 2 ^ 52"
    using round64_eval[of 0 "115 / 100"] by (simp add: pow2_def roundEven_def)
  have b: "round64 (6305039478318694 / 2 ^ 52 - 5179139571476070 / 2 ^ 52)
             = 1125899906842624 / 2 ^ 52"
    using round64_eval[of "- 2" "6305039478318694 / 2 ^ 52 - 5179139571476070 / 2 ^ 52"]
    by (simp add: pow2_def roundEven_def)
  have c: "round64 (1 / 2 * (1125899906842624 / 2 ^ 52)) = 562949953421312 / 2 ^ 52"
    using round64_eval[of "- 3" "1 / 2 * (1125899906842624 / 2 ^ 52)"]
    by (simp add: pow2_def roundEven_def)
  have d: "round64 (5179139571476070 / 2 ^ 52 + 562949953421312 / 2 ^ 52)
             = 5742089524897382 / 2 ^ 52"
    using round64_eval[of 0 "5179139571476070 / 2 ^ 52 + 562949953421312 / 2 ^ 52"]
    by (simp add: pow2_def roundEven_def)
  have e: "randInRange (1 / 2) (round64 (115 / 100)) (round64 (14 / 10))
          = 5742089524897382 / 2 ^ 52"
    by (simp only: randInRange_def a a' b c d)
  show ?thesis unfolding e by (simp add: toFixed2_def fixedDigits2_def char_eval)
qed

lemma click_sirius:
  "displayedAttributes (starClickInfo (projectStar demoRandom 0 0 sirius))
     = (''Sirius'', ''unclaimed'', ''A-type star'', 8125, ''1.70 x Sun radius'')"
proof -
  have r: "randInRange (1 / 2) (round64 (7 / 5)) 2 = 7656119366529843 / 2 ^ 52"
    using radius_A_half by simp
  have n: "cat_name sirius = Some ''Sirius''" by (simp add: sirius_def)
  show ?thesis
    by (simp add: displayedAttributes_def starClickInfo_def projectStar_def
          inferSpectralClass_sirius Let_def demoRandom_def temperature_A_quarter r n
          Math_round_def toFixed2_def fixedDigits2_def char_eval trim_def isWhiteSpace_def)
qed

lemma search_sirius:
  "displayedAttributes (searchInfo (3 / 4) (1 / 2) sirius)
     = (''Sirius'', ''unclaimed'', ''A-type white star'', 9375, ''1.70 x Sun radius'')"
proof -
  have r: "randInRange (1 / 2) (round64 (7 / 5)) 2 = 7656119366529843 / 2 ^ 52"
    using radius_A_half by simp
  have n: "cat_name sirius = Some ''Sirius''" by (simp add: sirius_def)
  show ?thesis
    by (simp add: displayedAttributes_def searchInfo_def inferSpectralClass_sirius Let_def
          temperature_A_three_quarters r n Math_round_def toFixed2_def fixedDigits2_def
          char_eval)
qed

text \<open>
  Claim C1, evaluated on the code. The catalog holds the one record Sirius (class A).
  Clicking the star of the mounted field selects the attributes sampled at load: type
  \<open>A-type star\<close> and temperature 8125. Searching \<open>sirius\<close> in the same session draws the
  temperature and the radius again and takes the type from the class label, selecting
  type \<open>A-type white star\<close> and temperature 9375. The type strings of the two paths differ
  for every class, whatever the generator returns.
\<close>

theorem search_selection_differs_from_click:
  "map_option displayedAttributes
     (selectedStar (clickStar (starFieldStars demoRandom [sirius])
        (galaxyMounted (starFieldStars demoRandom [sirius])) 0))
     = Some (''Sirius'', ''unclaimed'', ''A-type star'', 8125, ''1.70 x Sun radius'')
   \<and> map_option displayedAttributes
     (selectedStar (performSearch demoRandom [sirius]
        (galaxyMounted (starFieldStars demoRandom [sirius])\<lparr>searchValue := ''sirius''\<rparr>)))
     = Some (''Sirius'', ''unclaimed'', ''A-type white star'', 9375, ''1.70 x Sun radius'')
   \<and> si_type (searchInfo uT uR s) \<noteq> si_type (starClickInfo (projectStar rnd n i s))"
proof -
  have field: "starFieldStars demoRandom [sirius] = [projectStar demoRandom 0 0 sirius]"
    by (simp add: starFieldStars_def)
  have c: "map_option displayedAttributes
     (selectedStar (clickStar (starFieldStars demoRandom [sirius])
        (galaxyMounted (starFieldStars demoRandom [sirius])) 0))
     = Some (''Sirius'', ''unclaimed'', ''A-type star'', 8125, ''1.70 x Sun radius'')"
    by (simp add: field clickStar_def handleStarSelect_def click_sirius)
  have found: "selectedStar (performSearch demoRandom [sirius]
        (galaxyMounted (starFieldStars demoRandom [sirius])\<lparr>searchValue := ''sirius''\<rparr>))
     = Some (searchInfo (3 / 4) (1 / 2) sirius)"
    by (simp add: field performSearch_def sirius_matches galaxyMounted_def trim_examples
          Let_def demoRandom_def)
  have q: "map_option displayedAttributes
     (selectedStar (performSearch demoRandom [sirius]
        (galaxyMounted (starFieldStars demoRandom [sirius])\<lparr>searchValue := ''sirius''\<rparr>)))
     = Some (''Sirius'', ''unclaimed'', ''A-type white star'', 9375, ''1.70 x Sun radius'')"
    by (simp only: found option.map search_sirius)
  have "label (SPECTRAL_CONFIG c) \<noteq> classLetter c @ ''-type star''" for c
    by (cases c) simp_all
  then have t: "si_type (searchInfo uT uR s) \<noteq> si_type (starClickInfo (projectStar rnd n i s))"
    by (simp add: searchInfo_def starClickInfo_def projectStar_def Let_def)
  show ?thesis using c q t by (intro conjI)
qed

text \<open>
  Claim C9, as the code has it. When the query is not blank and no record's name matches
  it up to case, \<open>performSearch\<close> only appends the warning \<open>Star not found:\<close> with the
  query: the selection and the camera controls are as before. When the query is empty
  after trimming, \<open>performSearch\<close> returns at once and changes nothing, so no warning is
  emitted.
\<close>

theorem performSearch_miss:
  "(trim (searchValue st) \<noteq> [] \<longrightarrow> find (nameMatches (searchValue st)) stars = None \<longrightarrow>
      performSearch rnd stars st
        = st\<lparr>warnings := warnings st @ [[''Star not found:'', searchValue st]]\<rparr>
      \<and> selectedStar (performSearch rnd stars st) = selectedStar st
      \<and> controls (performSearch rnd stars st) = controls st)
   \<and> (trim (searchValue st) = [] \<longrightarrow> performSearch rnd stars st = st)"
  by (simp add: performSearch_def)

theorem performSearch_miss_witness:
  "trim (searchValue (galaxyMounted []\<lparr>searchValue := ''Vega''\<rparr>)) \<noteq> []
   \<and> find (nameMatches (searchValue (galaxyMounted []\<lparr>searchValue := ''Vega''\<rparr>))) [sirius] = None
   \<and> warnings (performSearch demoRandom [sirius] (galaxyMounted []\<lparr>searchValue := ''Vega''\<rparr>))
        = [[''Star not found:'', ''Vega'']]
   \<and> selectedStar (performSearch demoRandom [sirius] (galaxyMounted []\<lparr>searchValue := ''Vega''\<rparr>))
        = None
   \<and> trim (searchValue (galaxyMounted []\<lparr>searchValue := ''  ''\<rparr>)) = []
   \<and> performSearch demoRandom [sirius] (galaxyMounted []\<lparr>searchValue := ''  ''\<rparr>)
        = galaxyMounted []\<lparr>searchValue := ''  ''\<rparr>"
  using performSearch_miss [of "galaxyMounted []\<lparr>searchValue := ''Vega''\<rparr>" "[sirius]" demoRandom]
    performSearch_miss [of "galaxyMounted []\<lparr>searchValue := ''  ''\<rparr>" "[sirius]" demoRandom]
  by (simp add: sirius_no_match trim_examples galaxyMounted_def)

text \<open>
  Claim C9 as stated fails: for the blank query of two spaces no record of the catalog
  matches, and the search emits no warning.
\<close>

theorem performSearch_blank_counterexample:
  "find (nameMatches ''  '') [sirius] = None
   \<and> warnings (performSearch demoRandom [sirius] (galaxyMounted []\<lparr>searchValue := ''  ''\<rparr>)) = []"
  by (simp add: sirius_no_match performSearch_def trim_examples galaxyMounted_def)

section \<open>Properties of the constellation placement system\<close>

lemma Math_round_nearest:
  "\<bar>of_int (Math_round v) - v\<bar> \<le> 1 / 2
   \<and> (\<forall>j::int. \<bar>of_int (Math_round v) - v\<bar> \<le> \<bar>of_int j - v\<bar>)"
proof -
  define k where "k = Math_round v"
  have lo: "of_int k \<le> v + 1 / 2" and hi: "v + 1 / 2 < of_int k + 1"
    unfolding k_def Math_round_def by linarith+
  have near: "\<bar>of_int k - v\<bar> \<le> 1 / 2" using lo hi by linarith
  have "\<bar>of_int k - v\<bar> \<le> \<bar>of_int j - v\<bar>" for j :: int
  proof (cases "j = k")
    case True
    then show ?thesis by simp
  next
    case False
    then consider "j \<le> k - 1" | "k + 1 \<le> j" by linarith
    then show ?thesis
    proof cases
      case 1
      then have "real_of_int j \<le> of_int k - 1" by linarith
      then show ?thesis using lo hi by linarith
    next
      case 2
      then have "real_of_int k + 1 \<le> of_int j" by linarith
      then show ?thesis using lo hi by linarith
    qed
  qed
  then show ?thesis using near by (simp add: k_def)
qed

lemma snapped_multiple_near:
  assumes "0 < step"
  shows "\<bar>of_int (Math_round (v / step)) * step - v\<bar> \<le> step / 2"
proof -
  have "\<bar>of_int (Math_round (v / step)) - v / step\<bar> \<le> 1 / 2"
    using Math_round_nearest[of "v / step"] by blast
  then have "\<bar>of_int (Math_round (v / step)) - v / step\<bar> * step \<le> (1 / 2) * step"
    using assms by (simp add: mult_right_mono)
  moreover have "\<bar>of_int (Math_round (v / step)) - v / step\<bar> * step
                   = \<bar>of_int (Math_round (v / step)) * step - v\<bar>"
  proof -
    have "\<bar>of_int (Math_round (v / step)) - v / step\<bar> * step
            = \<bar>(of_int (Math_round (v / step)) - v / step) * step\<bar>"
      using assms by (simp add: abs_mult)
    also have "(of_int (Math_round (v / step)) - v / step) * step
                 = of_int (Math_round (v / step)) * step - v"
      using assms by (simp add: left_diff_distrib)
    finally show ?thesis .
  qed
  ultimately show ?thesis by simp
qed

lemma onGrid_snapToGrid: "onGrid (snapToGrid p 1)"
  by (cases p) (simp add: snapToGrid_def onGrid_def isInteger_def)

lemma find_gives_id: "find (\<lambda>s. inv_id s = a) xs = Some b \<Longrightarrow> inv_id b = a"
  by (induction xs) (auto split: if_splits)

lemma find_after_replace:
  assumes "inv_id u = a"
  shows "find (\<lambda>s. inv_id s = a) xs = Some b \<Longrightarrow>
     find (\<lambda>s. inv_id s = a) (map (\<lambda>s. if inv_id s = a then u else s) xs) = Some u"
  using assms by (induction xs) auto

lemma handlePlaneClick_armed:
  assumes "editMode st" "selectedInventoryId st = Some armed" "armed \<noteq> []"
    "find (\<lambda>s. inv_id s = armed) (inventory st) = Some baseStar"
  shows "handlePlaneClick st pos =
     st\<lparr>inventory :=
          map (\<lambda>s. if inv_id s = armed
                    then baseStar\<lparr>inv_placed := True, inv_position := Some (snapToGrid pos 1)\<rparr>
                    else s) (inventory st),
        placedSelection :=
          Some (baseStar\<lparr>inv_placed := True, inv_position := Some (snapToGrid pos 1)\<rparr>)\<rparr>"
  using assms by (simp add: handlePlaneClick_def Let_def)

text \<open>
  Claim C5. \<open>snapToGrid\<close> rounds each axis on its own to the nearest multiple of the
  step (a tie going up); with the step 1 that \<open>handlePlaneClick\<close> passes, each coordinate
  is the nearest integer. In edit mode with an armed id found in the inventory,
  \<open>handlePlaneClick\<close> makes that entry placed at the snapped position and makes it the
  displayed selection. The input \<open>(1.4, 2.6, -0.2)\<close> is stored as \<open>(1, 3, 0)\<close>.
\<close>

theorem handlePlaneClick_places_snapped:
  assumes "editMode st" "selectedInventoryId st = Some armed" "armed \<noteq> []"
    "find (\<lambda>s. inv_id s = armed) (inventory st) = Some baseStar"
    and "0 < step"
  shows "snapToGrid (x, y, z) step
           = (of_int (Math_round (x / step)) * step, of_int (Math_round (y / step)) * step,
              of_int (Math_round (z / step)) * step)
    \<and> \<bar>of_int (Math_round (x / step)) * step - x\<bar> \<le> step / 2
    \<and> \<bar>of_int (Math_round (y / step)) * step - y\<bar> \<le> step / 2
    \<and> \<bar>of_int (Math_round (z / step)) * step - z\<bar> \<le> step / 2
    \<and> snapToGrid (x, y, z) 1
           = (of_int (Math_round x), of_int (Math_round y), of_int (Math_round z))
    \<and> (\<forall>j::int. \<bar>of_int (Math_round x) - x\<bar> \<le> \<bar>of_int j - x\<bar>)
    \<and> (\<forall>j::int. \<bar>of_int (Math_round y) - y\<bar> \<le> \<bar>of_int j - y\<bar>)
    \<and> (\<forall>j::int. \<bar>of_int (Math_round z) - z\<bar> \<le> \<bar>of_int j - z\<bar>)
    \<and> onGrid (snapToGrid (x, y, z) 1)
    \<and> find (\<lambda>s. inv_id s = armed) (inventory (handlePlaneClick st (x, y, z)))
         = Some (baseStar\<lparr>inv_placed := True, inv_position := Some (snapToGrid (x, y, z) 1)\<rparr>)
    \<and> placedSelection (handlePlaneClick st (x, y, z))
         = Some (baseStar\<lparr>inv_placed := True, inv_position := Some (snapToGrid (x, y, z) 1)\<rparr>)
    \<and> snapToGrid (1.4, 2.6, -0.2) 1 = (1, 3, 0)"
proof -
  let ?u = "baseStar\<lparr>inv_placed := True, inv_position := Some (snapToGrid (x, y, z) 1)\<rparr>"
  have idu: "inv_id ?u = armed" using find_gives_id[OF assms(4)] by simp
  have click: "handlePlaneClick st (x, y, z) =
     st\<lparr>inventory := map (\<lambda>s. if inv_id s = armed then ?u else s) (inventory st),
        placedSelection := Some ?u\<rparr>"
    by (rule handlePlaneClick_armed[OF assms(1-4)])
  have f: "find (\<lambda>s. inv_id s = armed) (inventory (handlePlaneClick st (x, y, z))) = Some ?u"
    using find_after_replace[OF idu assms(4)] by (simp add: click)
  have s: "placedSelection (handlePlaneClick st (x, y, z)) = Some ?u"
    by (simp add: click)
  have g: "snapToGrid (x, y, z) step
           = (of_int (Math_round (x / step)) * step, of_int (Math_round (y / step)) * step,
              of_int (Math_round (z / step)) * step)"
    by (simp add: snapToGrid_def)
  have snap: "snapToGrid (x, y, z) 1
           = (of_int (Math_round x), of_int (Math_round y), of_int (Math_round z))"
    by (simp add: snapToGrid_def)
  have ex: "snapToGrid (1.4, 2.6, -0.2) 1 = (1, 3, 0)"
    by (simp add: snapToGrid_def Math_round_def)
  have nx: "\<forall>j::int. \<bar>of_int (Math_round x) - x\<bar> \<le> \<bar>of_int j - x\<bar>"
    and ny: "\<forall>j::int. \<bar>of_int (Math_round y) - y\<bar> \<le> \<bar>of_int j - y\<bar>"
    and nz: "\<forall>j::int. \<bar>of_int (Math_round z) - z\<bar> \<le> \<bar>of_int j - z\<bar>"
    using Math_round_nearest by blast+
  show ?thesis
    using g snapped_multiple_near[OF assms(5), of x] snapped_multiple_near[OF assms(5), of y]
      snapped_multiple_near[OF assms(5), of z] snap nx ny nz onGrid_snapToGrid[of "(x, y, z)"] f s ex
    by (intro conjI)
qed

lemma demoConstellation_find:
  "find (\<lambda>s. inv_id s = ''common-0'') (inventory demoConstellation)
     = Some (makeStar (1 / 2) common 0)"
  by (simp add: demoConstellation_def makeStar_def char_eval)

theorem handlePlaneClick_places_snapped_witness:
  "editMode demoConstellation \<and> selectedInventoryId demoConstellation = Some ''common-0''
   \<and> ''common-0'' \<noteq> []
   \<and> find (\<lambda>s. inv_id s = ''common-0'') (inventory demoConstellation)
        = Some (makeStar (1 / 2) common 0)
   \<and> (0::real) < 1
   \<and> placedSelection (handlePlaneClick demoConstellation (1.4, 2.6, -0.2))
        = Some (makeStar (1 / 2) common 0\<lparr>inv_placed := True, inv_position := Some (1, 3, 0)\<rparr>)"
proof -
  have h: "editMode demoConstellation" "selectedInventoryId demoConstellation = Some ''common-0''"
    "''common-0'' \<noteq> []"
    by (simp_all add: demoConstellation_def)
  have one: "(0::real) < 1" by simp
  note inst = handlePlaneClick_places_snapped
    [OF h demoConstellation_find one, of "1.4" "2.6" "-0.2"]
  have ex: "snapToGrid (1.4, 2.6, -0.2) 1 = (1, 3, 0)"
    using inst by (elim conjE)
  have "placedSelection (handlePlaneClick demoConstellation (1.4, 2.6, -0.2))
        = Some (makeStar (1 / 2) common 0
                  \<lparr>inv_placed := True, inv_position := Some (snapToGrid (1.4, 2.6, -0.2) 1)\<rparr>)"
    using inst by (elim conjE)
  then have sel: "placedSelection (handlePlaneClick demoConstellation (1.4, 2.6, -0.2))
        = Some (makeStar (1 / 2) common 0\<lparr>inv_placed := True, inv_position := Some (1, 3, 0)\<rparr>)"
    by (simp only: ex)
  show ?thesis using h demoConstellation_find one sel by (intro conjI)
qed

lemma placedAndCleared_state:
  "placedAndCleared =
     \<lparr>inventory =
        (makeStar (demoRandom 0) common 0)\<lparr>inv_placed := True, inv_position := Some (2, 2, 2)\<rparr>
          # tl (initialInventory demoRandom),
      editMode = True, selectedInventoryId = None, placedSelection = None\<rparr>"
  by (simp add: placedAndCleared_def constellationRun_def initialConstellation_def
        handleToggleEdit_def handleSelectInventoryStar_def handlePlaneClick_def clearSelection_def
        initialInventory_def upt_rec snapToGrid_def Math_round_def Let_def)
     (simp add: makeStar_def char_eval)

text \<open>
  Claim C6, as the code has it. The handler that arms an entry does nothing outside edit
  mode. In edit mode it toggles for every id, whether or not the entry with that id is
  placed: for the armed id the armed id becomes none, for any other id that id becomes the
  armed one, so one id at most is armed. The inventory is left as it is.
\<close>

theorem armForPlacement_toggles:
  "(\<not> editMode st \<longrightarrow> handleSelectInventoryStar st i = st)
   \<and> (editMode st \<longrightarrow> selectedInventoryId st = Some i \<longrightarrow>
        handleSelectInventoryStar st i = st\<lparr>selectedInventoryId := None\<rparr>)
   \<and> (editMode st \<longrightarrow> selectedInventoryId st \<noteq> Some i \<longrightarrow>
        handleSelectInventoryStar st i = st\<lparr>selectedInventoryId := Some i\<rparr>)
   \<and> inventory (handleSelectInventoryStar st i) = inventory st"
  by (simp add: handleSelectInventoryStar_def)

theorem armForPlacement_toggles_witness:
  "\<not> editMode (demoConstellation\<lparr>editMode := False\<rparr>)
   \<and> handleSelectInventoryStar (demoConstellation\<lparr>editMode := False\<rparr>) ''uncommon-0''
        = demoConstellation\<lparr>editMode := False\<rparr>
   \<and> editMode demoConstellation \<and> selectedInventoryId demoConstellation = Some ''common-0''
   \<and> handleSelectInventoryStar demoConstellation ''common-0''
        = demoConstellation\<lparr>selectedInventoryId := None\<rparr>
   \<and> selectedInventoryId demoConstellation \<noteq> Some ''uncommon-0''
   \<and> handleSelectInventoryStar demoConstellation ''uncommon-0''
        = demoConstellation\<lparr>selectedInventoryId := Some ''uncommon-0''\<rparr>
   \<and> editMode placedAndCleared \<and> selectedInventoryId placedAndCleared \<noteq> Some ''common-0''
   \<and> handleSelectInventoryStar placedAndCleared ''common-0''
        = placedAndCleared\<lparr>selectedInventoryId := Some ''common-0''\<rparr>"
proof -
  have h1: "\<not> editMode (demoConstellation\<lparr>editMode := False\<rparr>)" by simp
  have h2: "editMode demoConstellation" "selectedInventoryId demoConstellation = Some ''common-0''"
    "selectedInventoryId demoConstellation \<noteq> Some ''uncommon-0''"
    by (simp_all add: demoConstellation_def)
  have h3: "editMode placedAndCleared" "selectedInventoryId placedAndCleared \<noteq> Some ''common-0''"
    by (simp_all add: placedAndCleared_state)
  note outside = armForPlacement_toggles
    [of "demoConstellation\<lparr>editMode := False\<rparr>" "''uncommon-0''"]
  note same = armForPlacement_toggles [of demoConstellation "''common-0''"]
  note other = armForPlacement_toggles [of demoConstellation "''uncommon-0''"]
  note placed = armForPlacement_toggles [of placedAndCleared "''common-0''"]
  have r1: "handleSelectInventoryStar (demoConstellation\<lparr>editMode := False\<rparr>) ''uncommon-0''
              = demoConstellation\<lparr>editMode := False\<rparr>"
    by (rule outside [THEN conjunct1, THEN mp, OF h1])
  have r2: "handleSelectInventoryStar demoConstellation ''common-0''
              = demoConstellation\<lparr>selectedInventoryId := None\<rparr>"
    by (rule same [THEN conjunct2, THEN conjunct1, THEN mp, OF h2(1), THEN mp, OF h2(2)])
  have r3: "handleSelectInventoryStar demoConstellation ''uncommon-0''
              = demoConstellation\<lparr>selectedInventoryId := Some ''uncommon-0''\<rparr>"
    by (rule other [THEN conjunct2, THEN conjunct2, THEN conjunct1, THEN mp, OF h2(1),
          THEN mp, OF h2(3)])
  have r4: "handleSelectInventoryStar placedAndCleared ''common-0''
              = placedAndCleared\<lparr>selectedInventoryId := Some ''common-0''\<rparr>"
    by (rule placed [THEN conjunct2, THEN conjunct2, THEN conjunct1, THEN mp, OF h3(1),
          THEN mp, OF h3(2)])
  show ?thesis using h1 h2 h3 r1 r2 r3 r4 by (intro conjI)
qed

text \<open>
  Claim C6 as stated fails: in a state reached from the initial one, with the first
  common star placed and nothing armed, the handler arms that placed entry.
\<close>

theorem armForPlacement_placed_counterexample:
  "editMode placedAndCleared
   \<and> selectedInventoryId placedAndCleared = None
   \<and> map inv_id (take 1 (inventory placedAndCleared)) = [''common-0'']
   \<and> map inv_placed (take 1 (inventory placedAndCleared)) = [True]
   \<and> selectedInventoryId (handleSelectInventoryStar placedAndCleared ''common-0'')
        = Some ''common-0''"
  by (simp add: placedAndCleared_state handleSelectInventoryStar_def)
     (simp add: makeStar_def char_eval)

text \<open>
  Claim C7. Leaving edit mode (the toggle in edit mode) clears the armed id; a click on
  the scene background clears the displayed selection and the armed id. Both leave the
  inventory as it is, so the placed flag and the position of every entry are unchanged.
\<close>

theorem exit_and_background_keep_placements:
  "(editMode st \<longrightarrow>
      \<not> editMode (handleToggleEdit st) \<and> selectedInventoryId (handleToggleEdit st) = None)
   \<and> inventory (handleToggleEdit st) = inventory st
   \<and> map inv_placed (inventory (handleToggleEdit st)) = map inv_placed (inventory st)
   \<and> map inv_position (inventory (handleToggleEdit st)) = map inv_position (inventory st)
   \<and> placedSelection (onPointerMissed st ''click'') = None
   \<and> selectedInventoryId (onPointerMissed st ''click'') = None
   \<and> inventory (onPointerMissed st ''click'') = inventory st
   \<and> map inv_placed (inventory (onPointerMissed st ''click'')) = map inv_placed (inventory st)
   \<and> map inv_position (inventory (onPointerMissed st ''click''))
        = map inv_position (inventory st)"
  by (simp add: handleToggleEdit_def onPointerMissed_def clearSelection_def)

theorem exit_and_background_keep_placements_witness:
  "editMode demoConstellation
   \<and> \<not> editMode (handleToggleEdit demoConstellation)
   \<and> selectedInventoryId (handleToggleEdit demoConstellation) = None"
proof -
  have h: "editMode demoConstellation" by (simp add: demoConstellation_def)
  from exit_and_background_keep_placements [of demoConstellation, THEN conjunct1, THEN mp, OF h] h
  show ?thesis by (intro conjI) (elim conjE, assumption)+
qed

lemma entryConsistent_placed:
  "entryConsistent (b\<lparr>inv_placed := True, inv_position := Some (snapToGrid pos 1)\<rparr>)"
  by (simp add: entryConsistent_def onGrid_snapToGrid)

lemma entryConsistent_returned:
  "entryConsistent (b\<lparr>inv_placed := False, inv_position := None\<rparr>)"
  by (simp add: entryConsistent_def)

lemma list_all_replace:
  "list_all P xs \<Longrightarrow> (\<And>s. P (g s)) \<Longrightarrow> list_all P (map (\<lambda>s. if c s then g s else s) xs)"
  by (induction xs) auto

lemma handlePlaneClick_inventory:
  "inventory (handlePlaneClick st pos) = inventory st \<or>
   (\<exists>armed b. inventory (handlePlaneClick st pos) =
      map (\<lambda>s. if inv_id s = armed
                then b\<lparr>inv_placed := True, inv_position := Some (snapToGrid pos 1)\<rparr> else s)
        (inventory st))"
  by (auto simp: handlePlaneClick_def Let_def split: option.splits)

lemma constellationStep_consistent:
  assumes a: "list_all entryConsistent (inventory st)"
  shows "list_all entryConsistent (inventory (constellationStep st ev))"
proof (cases ev)
  case ToggleEdit
  show ?thesis using a by (simp add: ToggleEdit handleToggleEdit_def)
next
  case (ArmForPlacement i)
  show ?thesis using a by (simp add: ArmForPlacement handleSelectInventoryStar_def)
next
  case (PlaceAt pos)
  from handlePlaneClick_inventory[of st pos] show ?thesis
  proof
    assume "inventory (handlePlaneClick st pos) = inventory st"
    then show ?thesis using a by (simp add: PlaceAt)
  next
    assume "\<exists>armed b. inventory (handlePlaneClick st pos) =
      map (\<lambda>s. if inv_id s = armed
                then b\<lparr>inv_placed := True, inv_position := Some (snapToGrid pos 1)\<rparr> else s)
        (inventory st)"
    then obtain armed b where "inventory (handlePlaneClick st pos) =
      map (\<lambda>s. if inv_id s = armed
                then b\<lparr>inv_placed := True, inv_position := Some (snapToGrid pos 1)\<rparr> else s)
        (inventory st)" by blast
    then show ?thesis using a
      by (simp add: PlaceAt list_all_replace entryConsistent_placed)
  qed
next
  case (ReturnToInventory i)
  show ?thesis using a
    by (simp add: ReturnToInventory handleReturnToInventory_def list_all_replace
          entryConsistent_returned)
next
  case (PlacedStarClick i)
  show ?thesis using a
    by (simp add: PlacedStarClick handlePlacedStarClick_def split: option.splits)
next
  case BackgroundClick
  show ?thesis using a by (simp add: BackgroundClick clearSelection_def)
qed

lemma initialInventory_consistent: "list_all entryConsistent (initialInventory rnd)"
  by (auto simp: initialInventory_def list_all_iff entryConsistent_def makeStar_def)

lemma constellationRun_consistent:
  "list_all entryConsistent (inventory st) \<Longrightarrow>
   list_all entryConsistent (inventory (constellationRun st events))"
  unfolding constellationRun_def
  by (induction events arbitrary: st) (simp_all add: constellationStep_consistent)

text \<open>
  Claim C10. The initial inventory has five common and two uncommon entries, none of
  them placed. After any sequence of the six operations (toggle of edit mode, arming,
  placing, return to the inventory, click on a placed star, background click), for any
  ids and positions and any values of the generator, every inventory entry is placed
  exactly when it has a position, and every position has three integer coordinates.
\<close>

theorem placement_invariant:
  "map inv_rarity (initialInventory rnd)
     = [common, common, common, common, common, uncommon, uncommon]
   \<and> list_all (\<lambda>s. \<not> inv_placed s) (initialInventory rnd)
   \<and> list_all entryConsistent
        (inventory (constellationRun (initialConstellation rnd) events))"
proof -
  have r: "map inv_rarity (initialInventory rnd)
     = [common, common, common, common, common, uncommon, uncommon]"
    by (simp add: initialInventory_def makeStar_def upt_rec)
  have u: "list_all (\<lambda>s. \<not> inv_placed s) (initialInventory rnd)"
    by (auto simp: initialInventory_def list_all_iff makeStar_def)
  have c: "list_all entryConsistent
        (inventory (constellationRun (initialConstellation rnd) events))"
    by (rule constellationRun_consistent)
       (simp add: initialConstellation_def initialInventory_consistent)
  show ?thesis using r u c by (intro conjI)
qed


end
